theory Spec2Isabelle
  imports Main
begin

section \<open>Tab group: data model\<close>

text \<open>
  Tabs and panels are DOM elements with identity: the tab group only holds references to
  them, and the same tab can be reached through the cache \<open>tabs\<close>, through \<open>activeTab\<close>
  and through an argument. They therefore live in two stores (one per element class),
  addressed by references; the group state carries the stores along.
\<close>

type_synonym tab_ref = nat
type_synonym panel_ref = nat
type_synonym group_ref = nat

record SlTab =
  panel :: string
  active :: bool
  disabled :: bool
  clientWidth :: int
  clientHeight :: int

record SlTabPanel =
  name :: string
  active :: bool

text \<open>A slotted element: its tag name (already lower-cased) and the object it denotes.\<close>

record element =
  tagName :: string
  ref :: nat

datatype placement = Top | Bottom | Start | End

datatype activation = Auto | Manual

datatype direction = Ltr | Rtl

datatype scroll_behavior = BehaviorAuto | BehaviorSmooth

datatype css_display = DisplayUnset | DisplayBlock | DisplayNone

datatype css_length = LengthUnset | LengthAuto | Px int

datatype css_transform = TransformUnset | TranslateX int | TranslateY int

record indicator_style =
  display :: css_display
  width :: css_length
  height :: css_length
  transform :: css_transform

datatype js_error = TypeError

text \<open>The optional second argument of \<open>setActiveTab\<close>; \<open>None\<close> is an absent key.\<close>

record set_active_options =
  emitEvents :: "bool option"
  scrollBehavior :: "scroll_behavior option"

text \<open>
  What \<open>handleKeyDown\<close> reads of a keyboard event: the key, the result of
  \<open>target.closest('sl-tab')\<close> and, for that tab, the result of \<open>closest('sl-tab-group')\<close>.
\<close>

record keyboard_event =
  key :: string
  closest_tab :: "tab_ref option"
  closest_group :: "group_ref option"

record SlTabGroup =
  self :: group_ref
  activeTab :: "tab_ref option"
  tabs :: "tab_ref list"
  panels :: "panel_ref list"
  placement :: placement
  activation :: activation
  dir :: direction
  indicator :: indicator_style
  nav_slot :: "element list"
  body_slot :: "element list"
  tab_heap :: "tab_ref \<Rightarrow> SlTab"
  panel_heap :: "panel_ref \<Rightarrow> SlTabPanel"
  focused :: "tab_ref option"
  events :: "(string \<times> string) list"
  scrolled :: "(tab_ref \<times> scroll_behavior option) list"

section \<open>Tab group: operations\<close>

text \<open>\<open>Array.prototype.indexOf\<close>: the first index of the element, or \<open>-1\<close>.\<close>

fun indexOf :: "'a list \<Rightarrow> 'a \<Rightarrow> int" where
  "indexOf [] x = - 1"
| "indexOf (y # ys) x =
     (if y = x then 0 else (let i = indexOf ys x in if i < 0 then - 1 else i + 1))"

text \<open>\<open>Array.prototype.slice(begin, end)\<close>: a negative bound counts from the end.\<close>

definition relative_index :: "int \<Rightarrow> int \<Rightarrow> int" where
  "relative_index i n = (if i < 0 then max (n + i) 0 else min i n)"

definition slice :: "'a list \<Rightarrow> int \<Rightarrow> int \<Rightarrow> 'a list" where
  "slice xs b e =
     (let n = int (length xs); k = relative_index b n; final = relative_index e n
      in take (nat (final - k)) (drop (nat k) xs))"

text \<open>
  Modelled from the spec: \<open>emit\<close> of the base element is not among the sources. A call
  \<open>this.emit(ev, { detail: { name: detail } })\<close> sends the notification outward; it is
  appended to the log of the group.
\<close>

definition emit :: "string \<Rightarrow> string \<Rightarrow> SlTabGroup \<Rightarrow> SlTabGroup" where
  "emit ev detail g = g\<lparr>events := events g @ [(ev, detail)]\<rparr>"

text \<open>
  Modelled from the spec: \<open>scrollIntoView\<close> of \<open>internal/scroll\<close> is not among the sources;
  it scrolls the nav container and touches nothing of the group, so the call is recorded.
\<close>

definition scrollIntoView ::
  "tab_ref \<Rightarrow> scroll_behavior option \<Rightarrow> SlTabGroup \<Rightarrow> SlTabGroup" where
  "scrollIntoView el behavior g = g\<lparr>scrolled := scrolled g @ [(el, behavior)]\<rparr>"

definition isHorizontal :: "placement \<Rightarrow> bool" where
  "isHorizontal p = (p \<in> set [Top, Bottom])"

definition isVertical :: "placement \<Rightarrow> bool" where
  "isVertical p = (p \<in> set [Start, End])"

definition getAllTabs :: "SlTabGroup \<Rightarrow> bool \<Rightarrow> tab_ref list" where
  "getAllTabs g includeDisabled =
     map ref (filter (\<lambda>el.
       if includeDisabled then tagName el = ''sl-tab''
       else tagName el = ''sl-tab'' \<and> \<not> SlTab.disabled (tab_heap g (ref el))) (nav_slot g))"

definition getAllPanels :: "SlTabGroup \<Rightarrow> panel_ref list" where
  "getAllPanels g = map ref (filter (\<lambda>el. tagName el = ''sl-tab-panel'') (body_slot g))"

definition getActiveTab :: "SlTabGroup \<Rightarrow> tab_ref option" where
  "getActiveTab g = find (\<lambda>el. SlTab.active (tab_heap g el)) (tabs g)"

definition repositionIndicator :: "SlTabGroup \<Rightarrow> SlTabGroup" where
  "repositionIndicator g =
     (case getActiveTab g of
        None \<Rightarrow> g
      | Some currentTab \<Rightarrow>
          (let width = clientWidth (tab_heap g currentTab);
               height = clientHeight (tab_heap g currentTab);
               isRtl = (dir g = Rtl);
               allTabs = getAllTabs g True;
               precedingTabs = slice allTabs 0 (indexOf allTabs currentTab);
               offset = foldl (\<lambda>(left, top) current.
                          (left + clientWidth (tab_heap g current),
                           top + clientHeight (tab_heap g current))) (0, 0) precedingTabs
           in case placement g of
                Top \<Rightarrow> g\<lparr>indicator := (indicator g)\<lparr>width := Px width, height := LengthAuto,
                          transform := (if isRtl then TranslateX (- 1 * fst offset)
                                        else TranslateX (fst offset))\<rparr>\<rparr>
              | Bottom \<Rightarrow> g\<lparr>indicator := (indicator g)\<lparr>width := Px width, height := LengthAuto,
                          transform := (if isRtl then TranslateX (- 1 * fst offset)
                                        else TranslateX (fst offset))\<rparr>\<rparr>
              | Start \<Rightarrow> g\<lparr>indicator := (indicator g)\<lparr>width := LengthAuto, height := Px height,
                          transform := TranslateY (snd offset)\<rparr>\<rparr>
              | End \<Rightarrow> g\<lparr>indicator := (indicator g)\<lparr>width := LengthAuto, height := Px height,
                          transform := TranslateY (snd offset)\<rparr>\<rparr>))"

definition syncIndicator :: "SlTabGroup \<Rightarrow> SlTabGroup" where
  "syncIndicator g =
     (case getActiveTab g of
        Some tab \<Rightarrow> repositionIndicator (g\<lparr>indicator := (indicator g)\<lparr>display := DisplayBlock\<rparr>\<rparr>)
      | None \<Rightarrow> g\<lparr>indicator := (indicator g)\<lparr>display := DisplayNone\<rparr>\<rparr>)"

text \<open>
  The first statement of \<open>setActiveTab\<close> merges the options over the defaults
  \<open>{ emitEvents: true, scrollBehavior: 'auto' }\<close>.
\<close>

definition resolved_emitEvents :: "set_active_options option \<Rightarrow> bool" where
  "resolved_emitEvents opts =
     (case opts of None \<Rightarrow> True
      | Some opt \<Rightarrow> (case emitEvents opt of None \<Rightarrow> True | Some b \<Rightarrow> b))"

definition resolved_scrollBehavior :: "set_active_options option \<Rightarrow> scroll_behavior" where
  "resolved_scrollBehavior opts =
     (case opts of None \<Rightarrow> BehaviorAuto
      | Some opt \<Rightarrow> (case scrollBehavior opt of None \<Rightarrow> BehaviorAuto | Some b \<Rightarrow> b))"

text \<open>
  \<open>setActiveTab\<close>. The argument is \<open>None\<close> when the caller passes \<open>undefined\<close>, as
  \<open>this.getActiveTab() ?? this.tabs[0]\<close> does on an empty cache: then \<open>tab !== this.activeTab\<close>
  holds exactly when some tab is active, and reading \<open>tab.disabled\<close> throws.
  The two \<open>map\<close> calls assign to every cached tab and panel in turn.
\<close>

definition setActiveTab ::
  "SlTabGroup \<Rightarrow> tab_ref option \<Rightarrow> set_active_options option \<Rightarrow> js_error + SlTabGroup" where
  "setActiveTab g tab opts =
     (let options_emitEvents = resolved_emitEvents opts;
          options_scrollBehavior = resolved_scrollBehavior opts
      in case tab of
           None \<Rightarrow> (if activeTab g \<noteq> None then Inl TypeError else Inr g)
         | Some t \<Rightarrow>
             if Some t \<noteq> activeTab g \<and> \<not> SlTab.disabled (tab_heap g t) then
               (let previousTab = activeTab g;
                    g1 = g\<lparr>activeTab := Some t\<rparr>;
                    g2 = g1\<lparr>tab_heap := foldl (\<lambda>h el.
                           h(el := (h el)\<lparr>SlTab.active := (Some el = activeTab g1)\<rparr>))
                           (tab_heap g1) (tabs g1)\<rparr>;
                    g3 = g2\<lparr>panel_heap := foldl (\<lambda>h el.
                           h(el := (h el)\<lparr>SlTabPanel.active :=
                             (case activeTab g2 of None \<Rightarrow> False
                              | Some a \<Rightarrow> name (h el) = panel (tab_heap g2 a))\<rparr>))
                           (panel_heap g2) (panels g2)\<rparr>;
                    g4 = syncIndicator g3;
                    g5 = (if isHorizontal (placement g4)
                          then scrollIntoView t (Some options_scrollBehavior) g4 else g4);
                    g6 = (if options_emitEvents then
                            (let g' = (case previousTab of
                                         Some p \<Rightarrow> emit ''sl-tab-hide'' (panel (tab_heap g5 p)) g5
                                       | None \<Rightarrow> g5)
                             in emit ''sl-tab-show'' (panel (tab_heap g' t)) g')
                          else g5)
                in Inr g6)
             else Inr g)"

definition syncTabsAndPanels :: "SlTabGroup \<Rightarrow> SlTabGroup" where
  "syncTabsAndPanels g =
     syncIndicator (g\<lparr>tabs := getAllTabs g False, panels := getAllPanels g\<rparr>)"

text \<open>The options \<open>{ scrollBehavior: 'smooth' }\<close> that \<open>show\<close> and the event handlers pass.\<close>

definition smooth :: "set_active_options option" where
  "smooth = Some \<lparr>emitEvents = None, scrollBehavior = Some BehaviorSmooth\<rparr>"

text \<open>\<open>show(panel)\<close> of the tab group.\<close>

definition SlTabGroup_show :: "SlTabGroup \<Rightarrow> string \<Rightarrow> js_error + SlTabGroup" where
  "SlTabGroup_show g p =
     (case find (\<lambda>el. panel (tab_heap g el) = p) (tabs g) of
        Some tab \<Rightarrow>
          setActiveTab g (Some tab) smooth
      | None \<Rightarrow> Inr g)"

text \<open>
  Lines 180 to 204 of \<open>handleKeyDown\<close>: from the index of the focused tab to the index of the
  tab that receives focus, for the placement, the direction of the text, the key and the
  length of the cache.
\<close>

definition targetIndex :: "placement \<Rightarrow> bool \<Rightarrow> string \<Rightarrow> int \<Rightarrow> int \<Rightarrow> int" where
  "targetIndex pl isRtl k index0 len =
     (let index1 =
            (if k = ''Home'' then 0
             else if k = ''End'' then len - 1
             else if (isHorizontal pl \<and> k = (if isRtl then ''ArrowRight'' else ''ArrowLeft'')) \<or>
                     (isVertical pl \<and> k = ''ArrowUp'') then index0 - 1
             else if (isHorizontal pl \<and> k = (if isRtl then ''ArrowLeft'' else ''ArrowRight'')) \<or>
                     (isVertical pl \<and> k = ''ArrowDown'') then index0 + 1
             else index0);
          index2 = (if index1 < 0 then len - 1 else index1);
          index3 = (if index2 > len - 1 then 0 else index2)
      in index3)"

text \<open>
  \<open>handleKeyDown\<close>. The result carries the group and whether \<open>event.preventDefault()\<close> was
  called. \<open>t.matches(':focus')\<close> holds of the tab that \<open>focused\<close> names, and \<open>focus()\<close> moves
  it. The cache holds \<open>sl-tab\<close> elements only, so the test of the tag name of the focused
  element succeeds whenever one is found. Reading \<open>this.tabs[index]\<close> out of range gives
  \<open>undefined\<close>, whose \<open>focus\<close> throws.
\<close>

definition handleKeyDown ::
  "SlTabGroup \<Rightarrow> keyboard_event \<Rightarrow> js_error + (SlTabGroup \<times> bool)" where
  "handleKeyDown g ev =
     (let tab = closest_tab ev;
          tabGroup = (case tab of None \<Rightarrow> None | Some _ \<Rightarrow> closest_group ev)
      in if tabGroup \<noteq> Some (self g) then Inr (g, False)
         else
           (case (if key ev \<in> set [''Enter'', '' ''] then
                    (case tab of
                       Some t \<Rightarrow> (case setActiveTab g tab smooth of
                                    Inl e \<Rightarrow> Inl e | Inr g' \<Rightarrow> Inr (g', True))
                     | None \<Rightarrow> Inr (g, False))
                  else Inr (g, False)) of
              Inl e \<Rightarrow> Inl e
            | Inr (g1, prevented) \<Rightarrow>
                if key ev \<in> set [''ArrowLeft'', ''ArrowRight'', ''ArrowUp'', ''ArrowDown'',
                                  ''Home'', ''End''] then
                  (case find (\<lambda>t. focused g1 = Some t) (tabs g1) of
                     None \<Rightarrow> Inr (g1, prevented)
                   | Some activeEl \<Rightarrow>
                       (let isRtl = (dir g1 = Rtl);
                            len = int (length (tabs g1));
                            index = targetIndex (placement g1) isRtl (key ev)
                                      (indexOf (tabs g1) activeEl) len
                        in if 0 \<le> index \<and> index < len then
                             (let target = tabs g1 ! nat index;
                                  g2 = g1\<lparr>focused := Some target\<rparr>
                              in case (if activation g2 = Auto
                                       then setActiveTab g2 (Some target) smooth
                                       else Inr g2) of
                                   Inl e \<Rightarrow> Inl e
                                 | Inr g3 \<Rightarrow>
                                     Inr (if isHorizontal (placement g3)
                                          then scrollIntoView target None g3 else g3, True))
                           else Inl TypeError))
                else Inr (g1, prevented)))"

section \<open>Tab group: notions used to state its properties\<close>

text \<open>
  A call of \<open>setActiveTab\<close> is its two arguments. A call that throws leaves the group as it
  was: the only throwing statement, the read of \<open>tab.disabled\<close>, precedes every assignment.
\<close>

type_synonym setActiveTab_call = "tab_ref option \<times> set_active_options option"

definition after_call :: "SlTabGroup \<Rightarrow> setActiveTab_call \<Rightarrow> SlTabGroup" where
  "after_call g c = (case setActiveTab g (fst c) (snd c) of Inl e \<Rightarrow> g | Inr g' \<Rightarrow> g')"

fun after_calls :: "SlTabGroup \<Rightarrow> setActiveTab_call list \<Rightarrow> SlTabGroup" where
  "after_calls g [] = g"
| "after_calls g (c # cs) = after_calls (after_call g c) cs"

text \<open>The call passes the guard of \<open>setActiveTab\<close>: another tab than the active one, not disabled.\<close>

definition changes_active :: "SlTabGroup \<Rightarrow> setActiveTab_call \<Rightarrow> bool" where
  "changes_active g c =
     (case fst c of None \<Rightarrow> False
      | Some t \<Rightarrow> Some t \<noteq> activeTab g \<and> \<not> SlTab.disabled (tab_heap g t))"

fun took_effect :: "SlTabGroup \<Rightarrow> setActiveTab_call list \<Rightarrow> bool" where
  "took_effect g [] = False"
| "took_effect g (c # cs) = (changes_active g c \<or> took_effect (after_call g c) cs)"

text \<open>
  The flags agree with the reference: a cached tab is flagged active exactly when it is
  \<open>activeTab\<close>, and a cached panel exactly when its name is the panel key of \<open>activeTab\<close>
  (so no panel is flagged when there is no active tab).
\<close>

definition active_consistent :: "SlTabGroup \<Rightarrow> bool" where
  "active_consistent g =
     ((\<forall>t \<in> set (tabs g). SlTab.active (tab_heap g t) \<longleftrightarrow> activeTab g = Some t) \<and>
      (\<forall>p \<in> set (panels g). SlTabPanel.active (panel_heap g p) \<longleftrightarrow>
         (case activeTab g of None \<Rightarrow> False
          | Some a \<Rightarrow> name (panel_heap g p) = panel (tab_heap g a))))"

text \<open>
  The property of the flags alone: at most one cached tab is flagged active, and a cached
  panel is flagged active exactly when its name is the panel key of the active tab.
\<close>

definition single_active :: "SlTabGroup \<Rightarrow> bool" where
  "single_active g =
     (card {t \<in> set (tabs g). SlTab.active (tab_heap g t)} \<le> 1 \<and>
      (\<forall>p \<in> set (panels g). SlTabPanel.active (panel_heap g p) \<longleftrightarrow>
         (case activeTab g of None \<Rightarrow> False
          | Some a \<Rightarrow> name (panel_heap g p) = panel (tab_heap g a))))"

text \<open>The stores after an activation of \<open>t\<close>: every cached tab and panel has been assigned.\<close>

definition activated_tabs :: "SlTabGroup \<Rightarrow> tab_ref \<Rightarrow> tab_ref \<Rightarrow> SlTab" where
  "activated_tabs g t =
     (\<lambda>x. if x \<in> set (tabs g) then (tab_heap g x)\<lparr>SlTab.active := (x = t)\<rparr> else tab_heap g x)"

definition activated_panels :: "SlTabGroup \<Rightarrow> tab_ref \<Rightarrow> panel_ref \<Rightarrow> SlTabPanel" where
  "activated_panels g t =
     (\<lambda>x. if x \<in> set (panels g)
          then (panel_heap g x)\<lparr>SlTabPanel.active :=
                 (name (panel_heap g x) = panel (tab_heap g t))\<rparr>
          else panel_heap g x)"

text \<open>The slotted tabs before the first occurrence of \<open>t\<close>, in DOM order.\<close>

definition precedingTabs :: "SlTabGroup \<Rightarrow> tab_ref \<Rightarrow> tab_ref list" where
  "precedingTabs g t = takeWhile (\<lambda>x. x \<noteq> t) (getAllTabs g True)"

definition navigation_keys :: "string list" where
  "navigation_keys = [''ArrowLeft'', ''ArrowRight'', ''ArrowUp'', ''ArrowDown'', ''Home'', ''End'']"

text \<open>
  The key that means "previous" and the key that means "next": left and right for the
  horizontal placements, swapped when the text runs right to left, up and down otherwise.
\<close>

definition previous_key :: "placement \<Rightarrow> direction \<Rightarrow> string" where
  "previous_key pl d =
     (if isHorizontal pl then (if d = Rtl then ''ArrowRight'' else ''ArrowLeft'') else ''ArrowUp'')"

definition next_key :: "placement \<Rightarrow> direction \<Rightarrow> string" where
  "next_key pl d =
     (if isHorizontal pl then (if d = Rtl then ''ArrowLeft'' else ''ArrowRight'') else ''ArrowDown'')"

text \<open>
  Where the focus is to land, in the words of the specification: the first index on Home,
  the last on End, one back or forth with wrap-around on the previous and next key, and
  the same index on an arrow of the other axis.
\<close>

definition landingIndex :: "placement \<Rightarrow> direction \<Rightarrow> string \<Rightarrow> nat \<Rightarrow> nat \<Rightarrow> nat" where
  "landingIndex pl d k i n =
     (if k = ''Home'' then 0
      else if k = ''End'' then n - 1
      else if k = previous_key pl d then (if i = 0 then n - 1 else i - 1)
      else if k = next_key pl d then (if i = n - 1 then 0 else i + 1)
      else i)"

text \<open>
  The active tab after a list of calls, in the words of the specification: a call with a
  tab other than the active one that is not disabled makes that tab the active one, and
  any other call changes nothing.
\<close>

definition next_active ::
  "(tab_ref \<Rightarrow> bool) \<Rightarrow> tab_ref option \<Rightarrow> setActiveTab_call \<Rightarrow> tab_ref option" where
  "next_active dis a c =
     (case fst c of None \<Rightarrow> a
      | Some t \<Rightarrow> if Some t \<noteq> a \<and> \<not> dis t then Some t else a)"

definition expected_active :: "SlTabGroup \<Rightarrow> setActiveTab_call list \<Rightarrow> tab_ref option" where
  "expected_active g calls =
     foldl (next_active (\<lambda>t. SlTab.disabled (tab_heap g t))) (activeTab g) calls"

section \<open>Tab group: an example\<close>

text \<open>
  Four slotted tabs, the last one disabled, and their four panels; the second tab is
  active and has the focus. The cache holds the three tabs that are not disabled.
\<close>

definition demo_tab_heap :: "tab_ref \<Rightarrow> SlTab" where
  "demo_tab_heap r =
     (if r = 0 then \<lparr>panel = ''general'', active = False, disabled = False,
                     clientWidth = 50, clientHeight = 20\<rparr>
      else if r = 1 then \<lparr>panel = ''custom'', active = True, disabled = False,
                     clientWidth = 60, clientHeight = 24\<rparr>
      else if r = 2 then \<lparr>panel = ''advanced'', active = False, disabled = False,
                     clientWidth = 70, clientHeight = 28\<rparr>
      else \<lparr>panel = ''disabled'', active = False, disabled = True,
             clientWidth = 80, clientHeight = 32\<rparr>)"

definition demo_panel_heap :: "panel_ref \<Rightarrow> SlTabPanel" where
  "demo_panel_heap r =
     (if r = 0 then \<lparr>name = ''general'', active = False\<rparr>
      else if r = 1 then \<lparr>name = ''custom'', active = True\<rparr>
      else if r = 2 then \<lparr>name = ''advanced'', active = False\<rparr>
      else \<lparr>name = ''disabled'', active = False\<rparr>)"

definition demo_group :: SlTabGroup where
  "demo_group =
     \<lparr>self = 7, activeTab = Some 1, tabs = [0, 1, 2], panels = [0, 1, 2, 3],
      placement = Top, activation = Auto, dir = Ltr,
      indicator = \<lparr>display = DisplayUnset, width = LengthUnset, height = LengthUnset,
                    transform = TransformUnset\<rparr>,
      nav_slot = [\<lparr>tagName = ''sl-tab'', ref = 0\<rparr>, \<lparr>tagName = ''sl-tab'', ref = 1\<rparr>,
                  \<lparr>tagName = ''sl-tab'', ref = 2\<rparr>, \<lparr>tagName = ''sl-tab'', ref = 3\<rparr>],
      body_slot = [\<lparr>tagName = ''sl-tab-panel'', ref = 0\<rparr>, \<lparr>tagName = ''sl-tab-panel'', ref = 1\<rparr>,
                   \<lparr>tagName = ''sl-tab-panel'', ref = 2\<rparr>, \<lparr>tagName = ''sl-tab-panel'', ref = 3\<rparr>],
      tab_heap = demo_tab_heap, panel_heap = demo_panel_heap, focused = Some 1,
      events = [], scrolled = []\<rparr>"

text \<open>The same group with every tab flagged active, as markup can leave it.\<close>

definition demo_group_all_active :: SlTabGroup where
  "demo_group_all_active =
     demo_group\<lparr>tab_heap := (\<lambda>r. (demo_tab_heap r)\<lparr>SlTab.active := True\<rparr>)\<rparr>"

definition demo_calls :: "setActiveTab_call list" where
  "demo_calls = [(Some 2, None), (Some 3, None), (Some 2, smooth), (None, None), (Some 0, None)]"

text \<open>Calls that all fail the guard on the example: the active tab, a disabled tab, no tab.\<close>

definition demo_noop_calls :: "setActiveTab_call list" where
  "demo_noop_calls = [(Some 1, None), (Some 3, smooth), (None, None)]"

text \<open>
  The example after its active tab was disabled and the caches were rebuilt: the cache no
  longer holds the tab, which is still slotted and still flagged active.
\<close>

definition demo_group_disabled_active :: SlTabGroup where
  "demo_group_disabled_active =
     syncTabsAndPanels
       (demo_group\<lparr>tab_heap := demo_tab_heap(1 := (demo_tab_heap 1)\<lparr>SlTab.disabled := True\<rparr>)\<rparr>)"

definition demo_key :: "string \<Rightarrow> keyboard_event" where
  "demo_key k = \<lparr>key = k, closest_tab = Some 1, closest_group = Some 7\<rparr>"

section \<open>Tooltip: data model\<close>

text \<open>
  The two elements the open handler touches: \<open>this.body\<close>, the \<open>.tooltip__body\<close> element of
  the tooltip's own template, and \<open>this.popup.popup\<close>, the internal container that the
  positioning element exposes for animation.
\<close>

datatype animated_element = Body | PopupContainer

text \<open>The registry keys \<open>tooltip.show\<close> and \<open>tooltip.hide\<close>.\<close>

datatype animation_name = TooltipShow | TooltipHide

record animation =
  anim_id :: nat
  target :: animated_element
  keyframes :: animation_name

text \<open>
  \<open>handleOpenChange\<close> is asynchronous: a call runs to its first \<open>await\<close> and is resumed
  later. A suspended call is the \<open>await\<close> it waits at: after \<open>stopAnimations\<close> or after
  \<open>animateTo\<close> (with the animation it started), on the show or on the hide branch.
\<close>

datatype await_point =
    ShowAwaitStop
  | ShowAwaitAnimate nat
  | HideAwaitStop
  | HideAwaitAnimate nat

text \<open>What \<open>show()\<close> and \<open>hide()\<close> resolve with: \<open>undefined\<close> at once, or the awaited event.\<close>

datatype promise = Undefined | WaitForEvent string

text \<open>
  The tooltip: its two reactive properties, whether the first update is over, the state of
  the body and of the positioning element, the old values of the properties changed since
  the last update, the animations in flight, the suspended calls of the open handler (oldest
  first) and the notifications emitted so far.
\<close>

record SlTooltip =
  "open" :: bool
  disabled :: bool
  hasUpdated :: bool
  body_hidden :: bool
  popup_active :: bool
  changed_open :: "bool option"
  changed_disabled :: "bool option"
  animations :: "animation list"
  next_animation :: nat
  suspended :: "await_point list"
  emitted :: "string list"

section \<open>Tooltip: operations\<close>

text \<open>
  Modelled from the spec: \<open>emit\<close> of the base element is not among the sources; the
  notification is appended to the log of the tooltip.
\<close>

definition emit_tooltip :: "string \<Rightarrow> SlTooltip \<Rightarrow> SlTooltip" where
  "emit_tooltip ev t = t\<lparr>emitted := emitted t @ [ev]\<rparr>"

text \<open>
  Modelled from the spec: \<open>stopAnimations\<close> of \<open>internal/animate\<close> is not among the sources.
  The specification gives it as \<open>stopAnimations(target)\<close>, "completing once any in-flight
  animation on the target is halted": the animations of that element are cancelled.
\<close>

definition stopAnimations :: "animated_element \<Rightarrow> SlTooltip \<Rightarrow> SlTooltip" where
  "stopAnimations el t = t\<lparr>animations := filter (\<lambda>a. target a \<noteq> el) (animations t)\<rparr>"

text \<open>
  Modelled from the spec: \<open>animateTo\<close> of \<open>internal/animate\<close> is not among the sources.
  \<open>animateTo(target, keyframes, options)\<close> starts an animation on the target, "completing
  at animation end": the animation is in flight until it ends or is cancelled.
\<close>

definition animateTo :: "animated_element \<Rightarrow> animation_name \<Rightarrow> SlTooltip \<Rightarrow> SlTooltip" where
  "animateTo el kf t =
     t\<lparr>animations := animations t @ [\<lparr>anim_id = next_animation t, target = el, keyframes = kf\<rparr>],
       next_animation := Suc (next_animation t)\<rparr>"

definition suspend :: "await_point \<Rightarrow> SlTooltip \<Rightarrow> SlTooltip" where
  "suspend p t = t\<lparr>suspended := suspended t @ [p]\<rparr>"

text \<open>\<open>handleOpenChange\<close>, from its call to its first \<open>await\<close> (lines 217 to 226 and 235 to 237).\<close>

definition handleOpenChange :: "SlTooltip \<Rightarrow> SlTooltip" where
  "handleOpenChange t =
     (if open t then
        (if SlTooltip.disabled t then t
         else suspend ShowAwaitStop (stopAnimations Body (emit_tooltip ''sl-show'' t)))
      else suspend HideAwaitStop (stopAnimations Body (emit_tooltip ''sl-hide'' t)))"

text \<open>
  \<open>handleOpenChange\<close>, resumed: from an \<open>await\<close> to the next one or to the end
  (lines 227 to 230, 232, 238 to 239 and 240 to 243).
\<close>

fun continue :: "await_point \<Rightarrow> SlTooltip \<Rightarrow> SlTooltip" where
  "continue ShowAwaitStop t =
     (let t1 = t\<lparr>body_hidden := False\<rparr>;
          t2 = t1\<lparr>popup_active := True\<rparr>
      in suspend (ShowAwaitAnimate (next_animation t2)) (animateTo PopupContainer TooltipShow t2))"
| "continue (ShowAwaitAnimate i) t = emit_tooltip ''sl-after-show'' t"
| "continue HideAwaitStop t =
     suspend (HideAwaitAnimate (next_animation t)) (animateTo PopupContainer TooltipHide t)"
| "continue (HideAwaitAnimate i) t =
     (let t1 = t\<lparr>popup_active := False\<rparr>;
          t2 = t1\<lparr>body_hidden := True\<rparr>
      in emit_tooltip ''sl-after-hide'' t2)"

text \<open>
  A suspended call can be resumed once what it awaits has completed: \<open>stopAnimations\<close> has
  halted its animations when it returns, \<open>animateTo\<close> completes when its animation is no
  longer in flight.
\<close>

fun ready :: "SlTooltip \<Rightarrow> await_point \<Rightarrow> bool" where
  "ready t ShowAwaitStop = True"
| "ready t (ShowAwaitAnimate i) = (i \<notin> set (map anim_id (animations t)))"
| "ready t HideAwaitStop = True"
| "ready t (HideAwaitAnimate i) = (i \<notin> set (map anim_id (animations t)))"

text \<open>
  One turn of the event loop: the oldest suspended call that can be resumed runs to its
  next \<open>await\<close>; when none can, the oldest animation in flight ends. \<open>None\<close>: nothing is
  left to do.
\<close>

definition step :: "SlTooltip \<Rightarrow> SlTooltip option" where
  "step t =
     (case find (ready t) (suspended t) of
        Some p \<Rightarrow> Some (continue p (t\<lparr>suspended := remove1 p (suspended t)\<rparr>))
      | None \<Rightarrow>
          (case animations t of
             [] \<Rightarrow> None
           | a # rest \<Rightarrow> Some (t\<lparr>animations := rest\<rparr>)))"

fun weight :: "await_point \<Rightarrow> nat" where
  "weight ShowAwaitStop = 3"
| "weight (ShowAwaitAnimate i) = 1"
| "weight HideAwaitStop = 3"
| "weight (HideAwaitAnimate i) = 1"

definition pending_work :: "SlTooltip \<Rightarrow> nat" where
  "pending_work t = sum_list (map weight (suspended t)) + length (animations t)"

text \<open>The event loop, run until the tooltip is at rest.\<close>

function settle :: "SlTooltip \<Rightarrow> SlTooltip" where
  "settle t = (case step t of None \<Rightarrow> t | Some t' \<Rightarrow> settle t')"
  by pat_completeness auto
termination
proof (relation "measure pending_work")
  show "wf (measure pending_work)" by simp
next
  fix t t' :: SlTooltip
  assume s: "step t = Some t'"
  have "pending_work t' < pending_work t"
  proof (cases "find (ready t) (suspended t)")
    case None
    with s show ?thesis
      by (auto simp: step_def pending_work_def split: list.splits)
  next
    case (Some p)
    then have "p \<in> set (suspended t)"
      by (auto simp: find_Some_iff)
    then have "sum_list (map weight (suspended t)) =
                 weight p + sum_list (map weight (remove1 p (suspended t)))"
      by (rule sum_list_map_remove1)
    with Some s show ?thesis
      by (cases p)
         (auto simp: step_def pending_work_def suspend_def animateTo_def emit_tooltip_def Let_def)
  qed
  then show "(t', t) \<in> measure pending_work" by simp
qed

declare settle.simps [simp del]

text \<open>
  Modelled from the spec: the reactive properties are declared by decorators of the
  rendering library, which is not among the sources. An assignment that changes a property
  is remembered, with the value before the first change, until the next update.
\<close>

definition set_open :: "bool \<Rightarrow> SlTooltip \<Rightarrow> SlTooltip" where
  "set_open v t =
     (if open t = v then t
      else t\<lparr>open := v,
             changed_open := (case changed_open t of None \<Rightarrow> Some (open t) | Some old \<Rightarrow> Some old)\<rparr>)"

definition set_disabled :: "bool \<Rightarrow> SlTooltip \<Rightarrow> SlTooltip" where
  "set_disabled v t =
     (if SlTooltip.disabled t = v then t
      else t\<lparr>SlTooltip.disabled := v,
             changed_disabled :=
               (case changed_disabled t of None \<Rightarrow> Some (SlTooltip.disabled t)
                | Some old \<Rightarrow> Some old)\<rparr>)"

text \<open>
  \<open>show()\<close> and \<open>hide()\<close>. \<open>waitForEvent\<close> of \<open>internal/event\<close> is not among the sources;
  the promise it returns is kept as the event it waits for.
\<close>

definition SlTooltip_show :: "SlTooltip \<Rightarrow> SlTooltip \<times> promise" where
  "SlTooltip_show t =
     (if open t then (t, Undefined)
      else (set_open True t, WaitForEvent ''sl-after-show''))"

definition SlTooltip_hide :: "SlTooltip \<Rightarrow> SlTooltip \<times> promise" where
  "SlTooltip_hide t =
     (if \<not> open t then (t, Undefined)
      else (set_open False t, WaitForEvent ''sl-after-hide''))"

definition handleDisabledChange :: "SlTooltip \<Rightarrow> SlTooltip" where
  "handleDisabledChange t =
     (if SlTooltip.disabled t \<and> open t then fst (SlTooltip_hide t) else t)"

text \<open>
  Modelled from the spec: the \<open>watch\<close> decorator of \<open>internal/watch\<close> is not among the
  sources. The specification has \<open>handleOpenChange\<close> "triggered whenever \<open>open\<close> transitions,
  after first render" (the option \<open>waitUntilFirstUpdate\<close>) and \<open>handleDisabledChange\<close> on
  every change of \<open>disabled\<close>. An update runs the handler of each property whose value differs
  from the remembered one, \<open>disabled\<close> before \<open>open\<close>, so that the \<open>hide()\<close> of
  \<open>handleDisabledChange\<close> is seen by the same update.
\<close>

definition update :: "SlTooltip \<Rightarrow> SlTooltip" where
  "update t =
     (let t1 = (case changed_disabled t of
                  Some old \<Rightarrow> if old \<noteq> SlTooltip.disabled t then handleDisabledChange t else t
                | None \<Rightarrow> t);
          t2 = (case changed_open t1 of
                  Some old \<Rightarrow> if old \<noteq> open t1 \<and> hasUpdated t1 then handleOpenChange t1 else t1
                | None \<Rightarrow> t1)
      in t2\<lparr>changed_open := None, changed_disabled := None, hasUpdated := True\<rparr>)"

section \<open>Tooltip: notions used to state its properties\<close>

text \<open>At rest: no call of the open handler is suspended, no animation runs, no change is pending.\<close>

definition idle :: "SlTooltip \<Rightarrow> bool" where
  "idle t = (suspended t = [] \<and> animations t = [] \<and>
             changed_open t = None \<and> changed_disabled t = None)"

text \<open>A call of the open handler is suspended on its hide branch.\<close>

definition hide_pending :: "SlTooltip \<Rightarrow> bool" where
  "hide_pending t =
     (\<exists>p \<in> set (suspended t). p = HideAwaitStop \<or> (\<exists>i. p = HideAwaitAnimate i))"

section \<open>Tooltip: examples\<close>

text \<open>A rendered tooltip at rest: shown, closed, and closed while disabled.\<close>

definition shown_tooltip :: SlTooltip where
  "shown_tooltip =
     \<lparr>open = True, disabled = False, hasUpdated = True, body_hidden = False,
      popup_active = True, changed_open = None, changed_disabled = None, animations = [],
      next_animation = 0, suspended = [], emitted = []\<rparr>"

definition closed_tooltip :: SlTooltip where
  "closed_tooltip =
     \<lparr>open = False, disabled = False, hasUpdated = True, body_hidden = True,
      popup_active = False, changed_open = None, changed_disabled = None, animations = [],
      next_animation = 0, suspended = [], emitted = []\<rparr>"

definition disabled_tooltip :: SlTooltip where
  "disabled_tooltip =
     \<lparr>open = False, disabled = True, hasUpdated = True, body_hidden = True,
      popup_active = False, changed_open = None, changed_disabled = None, animations = [],
      next_animation = 0, suspended = [], emitted = []\<rparr>"

text \<open>
  The shown tooltip after \<open>open\<close> was set to false and the hide animation has started, and
  the same tooltip after \<open>open\<close> was set to true again and the show animation has started.
\<close>

definition hiding_tooltip :: SlTooltip where
  "hiding_tooltip =
     \<lparr>open = False, disabled = False, hasUpdated = True, body_hidden = False,
      popup_active = True, changed_open = None, changed_disabled = None,
      animations = [\<lparr>anim_id = 0, target = PopupContainer, keyframes = TooltipHide\<rparr>],
      next_animation = 1, suspended = [HideAwaitAnimate 0], emitted = [''sl-hide'']\<rparr>"

definition reopened_tooltip :: SlTooltip where
  "reopened_tooltip =
     \<lparr>open = True, disabled = False, hasUpdated = True, body_hidden = False,
      popup_active = True, changed_open = None, changed_disabled = None,
      animations = [\<lparr>anim_id = 0, target = PopupContainer, keyframes = TooltipHide\<rparr>,
                    \<lparr>anim_id = 1, target = PopupContainer, keyframes = TooltipShow\<rparr>],
      next_animation = 2, suspended = [HideAwaitAnimate 0, ShowAwaitAnimate 1],
      emitted = [''sl-hide'', ''sl-show'']\<rparr>"

text \<open>
  An open tooltip before its first update, and the closed tooltip right after \<open>show()\<close>,
  before the update that the assignment has requested.
\<close>

definition unrendered_tooltip :: SlTooltip where
  "unrendered_tooltip =
     \<lparr>open = True, disabled = False, hasUpdated = False, body_hidden = True,
      popup_active = False, changed_open = None, changed_disabled = None, animations = [],
      next_animation = 0, suspended = [], emitted = []\<rparr>"

definition just_shown_tooltip :: SlTooltip where
  "just_shown_tooltip = fst (SlTooltip_show closed_tooltip)"

section \<open>Tab group: auxiliary facts\<close>

lemma foldl_tab_active:
  "foldl (\<lambda>h el. h(el := (h el)\<lparr>SlTab.active := c el\<rparr>)) h xs x =
     (if x \<in> set xs then (h x)\<lparr>SlTab.active := c x\<rparr> else h x)"
  by (induction xs arbitrary: h) auto

lemma foldl_panel_active:
  "foldl (\<lambda>h el. h(el := (h el)\<lparr>SlTabPanel.active := d (name (h el))\<rparr>)) h xs x =
     (if x \<in> set xs then (h x)\<lparr>SlTabPanel.active := d (name (h x))\<rparr> else h x)"
  by (induction xs arbitrary: h) auto

lemma panel_activated_tabs [simp]: "panel (activated_tabs g t x) = panel (tab_heap g x)"
  by (simp add: activated_tabs_def)

lemma foldl_tabs_eq:
  "foldl (\<lambda>h el. h(el := (h el)\<lparr>SlTab.active := (el = t)\<rparr>)) (tab_heap g) (tabs g)
     = activated_tabs g t"
  by (rule ext) (simp add: foldl_tab_active[where c = "\<lambda>el. el = t"] activated_tabs_def)

lemma foldl_panels_eq:
  "foldl (\<lambda>h el. h(el := (h el)\<lparr>SlTabPanel.active := (name (h el) = panel (tab_heap g t))\<rparr>))
     (panel_heap g) (panels g) = activated_panels g t"
  by (rule ext)
     (simp add: foldl_panel_active[where d = "\<lambda>n. n = panel (tab_heap g t)"] activated_panels_def)

text \<open>Repositioning and synchronising the indicator write the indicator and nothing else.\<close>

lemma repositionIndicator_frame: "\<exists>i. repositionIndicator g = g\<lparr>indicator := i\<rparr>"
  by (auto simp: repositionIndicator_def Let_def
           split: option.splits placement.splits prod.splits intro: exI[of _ "indicator g"])

lemma syncIndicator_frame: "\<exists>i. syncIndicator g = g\<lparr>indicator := i\<rparr>"
proof (cases "getActiveTab g")
  case None
  then show ?thesis by (auto simp: syncIndicator_def)
next
  case (Some t)
  obtain i where
    "repositionIndicator (g\<lparr>indicator := (indicator g)\<lparr>display := DisplayBlock\<rparr>\<rparr>)
       = g\<lparr>indicator := (indicator g)\<lparr>display := DisplayBlock\<rparr>\<rparr>\<lparr>indicator := i\<rparr>"
    using repositionIndicator_frame by blast
  with Some show ?thesis by (auto simp: syncIndicator_def)
qed

text \<open>The two outcomes of \<open>setActiveTab\<close> on a tab: nothing at all, or a full activation.\<close>

lemma setActiveTab_unchanged:
  assumes "activeTab g = Some t \<or> SlTab.disabled (tab_heap g t)"
  shows "setActiveTab g (Some t) opts = Inr g"
  using assms by (auto simp: setActiveTab_def Let_def)

lemma setActiveTab_effective:
  assumes "Some t \<noteq> activeTab g" and "\<not> SlTab.disabled (tab_heap g t)"
  shows "\<exists>i. setActiveTab g (Some t) opts =
           Inr (g\<lparr>activeTab := Some t, tab_heap := activated_tabs g t,
                  panel_heap := activated_panels g t, indicator := i,
                  scrolled := scrolled g @
                    (if isHorizontal (placement g)
                     then [(t, Some (resolved_scrollBehavior opts))] else []),
                  events := events g @
                    (if resolved_emitEvents opts
                     then (case activeTab g of None \<Rightarrow> []
                           | Some p \<Rightarrow> [(''sl-tab-hide'', panel (tab_heap g p))])
                          @ [(''sl-tab-show'', panel (tab_heap g t))]
                     else [])\<rparr>)"
proof -
  obtain i where i:
    "syncIndicator (g\<lparr>activeTab := Some t, tab_heap := activated_tabs g t,
                      panel_heap := activated_panels g t\<rparr>)
       = g\<lparr>activeTab := Some t, tab_heap := activated_tabs g t,
            panel_heap := activated_panels g t\<rparr>\<lparr>indicator := i\<rparr>"
    using syncIndicator_frame by blast
  have "setActiveTab g (Some t) opts =
           Inr (g\<lparr>activeTab := Some t, tab_heap := activated_tabs g t,
                  panel_heap := activated_panels g t, indicator := i,
                  scrolled := scrolled g @
                    (if isHorizontal (placement g)
                     then [(t, Some (resolved_scrollBehavior opts))] else []),
                  events := events g @
                    (if resolved_emitEvents opts
                     then (case activeTab g of None \<Rightarrow> []
                           | Some p \<Rightarrow> [(''sl-tab-hide'', panel (tab_heap g p))])
                          @ [(''sl-tab-show'', panel (tab_heap g t))]
                     else [])\<rparr>)"
    using assms
    by (cases "activeTab g")
       (simp_all add: setActiveTab_def Let_def foldl_tabs_eq foldl_panels_eq i emit_def
          scrollIntoView_def)
  then show ?thesis ..
qed

lemma setActiveTab_Some_frame:
  "\<exists>g'. setActiveTab g (Some t) opts = Inr g' \<and> focused g' = focused g \<and>
         tabs g' = tabs g \<and> placement g' = placement g"
proof (cases "Some t \<noteq> activeTab g \<and> \<not> SlTab.disabled (tab_heap g t)")
  case True
  then obtain g' i where "setActiveTab g (Some t) opts = Inr g'"
    and "g' = g\<lparr>activeTab := Some t, tab_heap := activated_tabs g t,
                  panel_heap := activated_panels g t, indicator := i,
                  scrolled := scrolled g @
                    (if isHorizontal (placement g)
                     then [(t, Some (resolved_scrollBehavior opts))] else []),
                  events := events g @
                    (if resolved_emitEvents opts
                     then (case activeTab g of None \<Rightarrow> []
                           | Some p \<Rightarrow> [(''sl-tab-hide'', panel (tab_heap g p))])
                          @ [(''sl-tab-show'', panel (tab_heap g t))]
                     else [])\<rparr>"
    using setActiveTab_effective[of t g opts] by blast
  then show ?thesis by simp
next
  case False
  then have "setActiveTab g (Some t) opts = Inr g"
    using setActiveTab_unchanged[of g t opts] by auto
  then show ?thesis by simp
qed

text \<open>A call either leaves the group alone or makes flags and reference agree.\<close>

lemma after_call_unchanged: "\<not> changes_active g c \<Longrightarrow> after_call g c = g"
  by (cases c)
     (auto simp: after_call_def changes_active_def setActiveTab_def Let_def split: option.splits)

lemma after_call_establishes:
  assumes "changes_active g c"
  shows "active_consistent (after_call g c)"
proof -
  obtain t opts where c: "c = (Some t, opts)"
    and t: "Some t \<noteq> activeTab g" "\<not> SlTab.disabled (tab_heap g t)"
    using assms by (cases c) (auto simp: changes_active_def split: option.splits)
  from setActiveTab_effective[OF t, of opts] obtain g' i where
    "setActiveTab g (Some t) opts = Inr g'"
    and "g' = g\<lparr>activeTab := Some t, tab_heap := activated_tabs g t,
                  panel_heap := activated_panels g t, indicator := i,
                  scrolled := scrolled g @
                    (if isHorizontal (placement g)
                     then [(t, Some (resolved_scrollBehavior opts))] else []),
                  events := events g @
                    (if resolved_emitEvents opts
                     then (case activeTab g of None \<Rightarrow> []
                           | Some p \<Rightarrow> [(''sl-tab-hide'', panel (tab_heap g p))])
                          @ [(''sl-tab-show'', panel (tab_heap g t))]
                     else [])\<rparr>"
    by blast
  then show ?thesis
    by (auto simp: after_call_def c active_consistent_def activated_tabs_def activated_panels_def)
qed

lemma after_call_preserves: "active_consistent g \<Longrightarrow> active_consistent (after_call g c)"
  by (cases "changes_active g c") (simp_all add: after_call_establishes after_call_unchanged)

lemma after_calls_consistent:
  "active_consistent g \<or> took_effect g cs \<Longrightarrow> active_consistent (after_calls g cs)"
proof (induction cs arbitrary: g)
  case Nil
  then show ?case by simp
next
  case (Cons c cs)
  have "active_consistent (after_call g c) \<or> took_effect (after_call g c) cs"
    using Cons.prems after_call_preserves[of g c] after_call_establishes[of g c] by auto
  then show ?case using Cons.IH by simp
qed

lemma consistent_at_most_one:
  assumes "active_consistent g"
  shows "card {t \<in> set (tabs g). SlTab.active (tab_heap g t)} \<le> 1"
proof -
  have "{t \<in> set (tabs g). SlTab.active (tab_heap g t)} \<subseteq> set_option (activeTab g)"
    using assms by (auto simp: active_consistent_def)
  then have "card {t \<in> set (tabs g). SlTab.active (tab_heap g t)}
               \<le> card (set_option (activeTab g))"
    by (intro card_mono) auto
  also have "\<dots> \<le> 1" by (cases "activeTab g") auto
  finally show ?thesis .
qed

lemma consistent_single_active: "active_consistent g \<Longrightarrow> single_active g"
  using consistent_at_most_one[of g] by (simp add: single_active_def active_consistent_def)

lemma after_calls_unchanged: "\<not> took_effect g cs \<Longrightarrow> after_calls g cs = g"
proof (induction cs arbitrary: g)
  case Nil
  then show ?case by simp
next
  case (Cons c cs)
  then have "\<not> changes_active g c" by simp
  then have same: "after_call g c = g" by (rule after_call_unchanged)
  with Cons.prems have "\<not> took_effect g cs" by simp
  then have "after_calls g cs = g" by (rule Cons.IH)
  with same show ?case by simp
qed

lemma after_calls_single_active:
  assumes "single_active g \<or> took_effect g cs"
  shows "single_active (after_calls g cs)"
proof (cases "took_effect g cs")
  case True
  then have "active_consistent (after_calls g cs)"
    by (simp add: after_calls_consistent)
  then show ?thesis by (rule consistent_single_active)
next
  case False
  with assms show ?thesis by (simp add: after_calls_unchanged)
qed

text \<open>What a call leaves alone, and the active tab it leaves behind.\<close>

lemma after_call_frame:
  "tabs (after_call g c) = tabs g \<and> panels (after_call g c) = panels g \<and>
   nav_slot (after_call g c) = nav_slot g \<and>
   (\<lambda>t. SlTab.disabled (tab_heap (after_call g c) t)) = (\<lambda>t. SlTab.disabled (tab_heap g t)) \<and>
   activeTab (after_call g c) = next_active (\<lambda>t. SlTab.disabled (tab_heap g t)) (activeTab g) c"
proof (cases "changes_active g c")
  case False
  then have "after_call g c = g" by (rule after_call_unchanged)
  with False show ?thesis
    by (cases c) (auto simp: next_active_def changes_active_def split: option.splits)
next
  case True
  then obtain t opts where c: "c = (Some t, opts)"
    and t: "Some t \<noteq> activeTab g" "\<not> SlTab.disabled (tab_heap g t)"
    by (cases c) (auto simp: changes_active_def split: option.splits)
  from setActiveTab_effective[OF t, of opts] obtain g' i where
    "setActiveTab g (Some t) opts = Inr g'"
    and "g' = g\<lparr>activeTab := Some t, tab_heap := activated_tabs g t,
                  panel_heap := activated_panels g t, indicator := i,
                  scrolled := scrolled g @
                    (if isHorizontal (placement g)
                     then [(t, Some (resolved_scrollBehavior opts))] else []),
                  events := events g @
                    (if resolved_emitEvents opts
                     then (case activeTab g of None \<Rightarrow> []
                           | Some p \<Rightarrow> [(''sl-tab-hide'', panel (tab_heap g p))])
                          @ [(''sl-tab-show'', panel (tab_heap g t))]
                     else [])\<rparr>"
    by blast
  then show ?thesis using t
    by (auto simp: after_call_def c next_active_def activated_tabs_def)
qed

lemma after_calls_frame:
  "tabs (after_calls g cs) = tabs g \<and> panels (after_calls g cs) = panels g \<and>
   nav_slot (after_calls g cs) = nav_slot g \<and>
   activeTab (after_calls g cs) = expected_active g cs"
proof (induction cs arbitrary: g)
  case Nil
  show ?case by (simp add: expected_active_def)
next
  case (Cons c cs)
  from after_call_frame[of g c] Cons.IH[of "after_call g c"]
  show ?case by (simp add: expected_active_def)
qed

lemma after_call_keeps_active:
  "activeTab g \<noteq> None \<or> changes_active g c \<Longrightarrow> activeTab (after_call g c) \<noteq> None"
  using after_call_frame[of g c]
  by (cases c) (auto simp: next_active_def changes_active_def split: option.splits)

lemma after_calls_active:
  "activeTab g \<noteq> None \<or> took_effect g cs \<Longrightarrow> activeTab (after_calls g cs) \<noteq> None"
proof (induction cs arbitrary: g)
  case Nil
  then show ?case by simp
next
  case (Cons c cs)
  have "activeTab (after_call g c) \<noteq> None \<or> took_effect (after_call g c) cs"
    using Cons.prems after_call_keeps_active[of g c] by auto
  then show ?case using Cons.IH by simp
qed

text \<open>The indicator: the slice before the active tab, and the two running sums.\<close>

lemma indexOf_takeWhile:
  "x \<in> set xs \<Longrightarrow> indexOf xs x = int (length (takeWhile (\<lambda>y. y \<noteq> x) xs))"
  by (induction xs) (auto simp: Let_def)

lemma indexOf_bounds: "x \<in> set xs \<Longrightarrow> 0 \<le> indexOf xs x \<and> indexOf xs x < int (length xs)"
  by (induction xs) (auto simp: Let_def)

lemma slice_preceding:
  assumes "x \<in> set xs"
  shows "slice xs 0 (indexOf xs x) = takeWhile (\<lambda>y. y \<noteq> x) xs"
proof -
  have "length (takeWhile (\<lambda>y. y \<noteq> x) xs) \<le> length xs"
    by (rule length_takeWhile_le)
  then have "slice xs 0 (indexOf xs x) = take (length (takeWhile (\<lambda>y. y \<noteq> x) xs)) xs"
    using assms by (simp add: slice_def relative_index_def indexOf_takeWhile Let_def)
  also have "\<dots> = takeWhile (\<lambda>y. y \<noteq> x) xs"
    by (metis append_eq_conv_conj takeWhile_dropWhile_id)
  finally show ?thesis .
qed

lemma foldl_offsets:
  "foldl (\<lambda>(left, top) current. (left + w current, top + h current)) (a, b) xs
     = (a + sum_list (map w xs), b + sum_list (map h xs))"
  by (induction xs arbitrary: a b) (simp_all add: add.assoc)

lemma getActiveTab_indicator [simp]: "getActiveTab (g\<lparr>indicator := i\<rparr>) = getActiveTab g"
  by (simp add: getActiveTab_def)

lemma getAllTabs_indicator [simp]: "getAllTabs (g\<lparr>indicator := i\<rparr>) b = getAllTabs g b"
  by (simp add: getAllTabs_def)

lemma repositionIndicator_active:
  assumes "getActiveTab g = Some t" and "t \<in> set (getAllTabs g True)"
  shows "indicator (repositionIndicator g) =
     (if isHorizontal (placement g)
      then (indicator g)\<lparr>width := Px (clientWidth (tab_heap g t)), height := LengthAuto,
             transform := TranslateX ((if dir g = Rtl then - 1 else 1) *
                 (\<Sum>x\<leftarrow>precedingTabs g t. clientWidth (tab_heap g x)))\<rparr>
      else (indicator g)\<lparr>width := LengthAuto, height := Px (clientHeight (tab_heap g t)),
             transform := TranslateY (\<Sum>x\<leftarrow>precedingTabs g t. clientHeight (tab_heap g x))\<rparr>)"
  using assms
  by (cases "placement g")
     (simp_all add: repositionIndicator_def Let_def slice_preceding foldl_offsets
        isHorizontal_def precedingTabs_def)

text \<open>Keyboard navigation: the computed index is the landing index, and focus moves there.\<close>

lemma targetIndex_landing:
  assumes "i < n"
  shows "targetIndex pl (d = Rtl) k (int i) (int n) = int (landingIndex pl d k i n)"
proof -
  have v: "isVertical pl = (\<not> isHorizontal pl)"
    by (cases pl) (simp_all add: isVertical_def isHorizontal_def)
  show ?thesis
    using assms
    by (cases d; cases "isHorizontal pl")
       (auto simp: targetIndex_def landingIndex_def previous_key_def next_key_def v Let_def)
qed

lemma find_focused:
  "find (\<lambda>t. f = Some t) xs =
     (case f of None \<Rightarrow> None | Some t \<Rightarrow> if t \<in> set xs then Some t else None)"
  by (induction xs) (auto split: option.splits)

lemma handleKeyDown_focus:
  assumes tgt: "closest_tab ev = Some tb" "closest_group ev = Some (self g)"
    and foc: "focused g = Some f" "f \<in> set (tabs g)"
    and k: "key ev \<in> set navigation_keys"
  shows "\<exists>g'. handleKeyDown g ev = Inr (g', True) \<and> tabs g' = tabs g \<and>
           focused g' = Some (tabs g ! nat (targetIndex (placement g) (dir g = Rtl) (key ev)
                                (indexOf (tabs g) f) (int (length (tabs g)))))"
proof -
  let ?len = "int (length (tabs g))"
  let ?i = "targetIndex (placement g) (dir g = Rtl) (key ev) (indexOf (tabs g) f) ?len"
  have notact: "key ev \<notin> set [''Enter'', '' '']"
    using k by (auto simp: navigation_keys_def)
  have b: "0 \<le> indexOf (tabs g) f \<and> indexOf (tabs g) f < ?len"
    using foc(2) by (rule indexOf_bounds)
  then have range: "0 \<le> ?i \<and> ?i < ?len"
    by (auto simp: targetIndex_def Let_def)
  let ?target = "tabs g ! nat ?i"
  let ?g2 = "g\<lparr>focused := Some ?target\<rparr>"
  obtain g3 where g3:
    "(if activation ?g2 = Auto then setActiveTab ?g2 (Some ?target) smooth else Inr ?g2) = Inr g3"
    "focused g3 = Some ?target" "tabs g3 = tabs g" "placement g3 = placement g"
    using setActiveTab_Some_frame[of ?g2 ?target smooth] by (cases "activation g = Auto") auto
  have fnd: "find (\<lambda>t. focused g = Some t) (tabs g) = Some f"
    using foc(2) unfolding find_focused foc(1) by simp
  have "handleKeyDown g ev =
          Inr (if isHorizontal (placement g3) then scrollIntoView ?target None g3 else g3, True)"
    using tgt notact k range g3(1) fnd
    by (simp add: handleKeyDown_def Let_def navigation_keys_def del: set_simps)
  then show ?thesis using g3 by (auto simp: scrollIntoView_def)
qed

lemma find_None_iff_all: "find P xs = None \<longleftrightarrow> (\<forall>x \<in> set xs. \<not> P x)"
  by (induction xs) auto

section \<open>Tab group: properties\<close>

text \<open>
  Claim C1, as stated, on the example with every tab flagged active: calls with the active
  tab, with a disabled tab and with \<open>undefined\<close> all fail the guard or throw, the group
  is as it was, and three tabs of the cache are flagged active. And on the example whose
  active tab was disabled before the caches were rebuilt: activating another tab flags that
  tab and leaves the disabled one, which is slotted but not cached, flagged as well.
\<close>

theorem setActiveTab_flags_counterexample:
  "after_calls demo_group_all_active demo_noop_calls = demo_group_all_active
   \<and> tabs demo_group_all_active = [0, 1, 2]
   \<and> SlTab.active (tab_heap demo_group_all_active 0)
   \<and> SlTab.active (tab_heap demo_group_all_active 1)
   \<and> SlTab.active (tab_heap demo_group_all_active 2)
   \<and> getAllTabs (after_calls demo_group_disabled_active [(Some 2, None)]) True = [0, 1, 2, 3]
   \<and> tabs (after_calls demo_group_disabled_active [(Some 2, None)]) = [0, 2]
   \<and> SlTab.active (tab_heap (after_calls demo_group_disabled_active [(Some 2, None)]) 1)
   \<and> SlTab.active (tab_heap (after_calls demo_group_disabled_active [(Some 2, None)]) 2)"
proof -
  have n: "\<not> took_effect demo_group_all_active demo_noop_calls"
    by (simp add: demo_noop_calls_def changes_active_def demo_group_all_active_def
          demo_group_def demo_tab_heap_def after_call_def setActiveTab_def Let_def)
  then have a: "after_calls demo_group_all_active demo_noop_calls = demo_group_all_active"
    by (rule after_calls_unchanged)
  have b: "tabs demo_group_all_active = [0, 1, 2]"
    "SlTab.active (tab_heap demo_group_all_active 0)"
    "SlTab.active (tab_heap demo_group_all_active 1)"
    "SlTab.active (tab_heap demo_group_all_active 2)"
    by (simp_all add: demo_group_all_active_def demo_group_def)
  let ?d = "demo_group\<lparr>tab_heap := demo_tab_heap(1 := (demo_tab_heap 1)\<lparr>SlTab.disabled := True\<rparr>)\<rparr>"
  have l: "getAllTabs ?d False = [0, 2]" "getAllPanels ?d = [0, 1, 2, 3]"
    by (simp_all add: getAllTabs_def getAllPanels_def demo_group_def demo_tab_heap_def)
  obtain i where i: "syncIndicator (?d\<lparr>tabs := [0, 2], panels := [0, 1, 2, 3]\<rparr>)
                    = ?d\<lparr>tabs := [0, 2], panels := [0, 1, 2, 3]\<rparr>\<lparr>indicator := i\<rparr>"
    using syncIndicator_frame by blast
  have s: "demo_group_disabled_active =
      demo_group\<lparr>tab_heap := demo_tab_heap(1 := (demo_tab_heap 1)\<lparr>SlTab.disabled := True\<rparr>),
        tabs := [0, 2], panels := [0, 1, 2, 3], indicator := i\<rparr>"
    unfolding demo_group_disabled_active_def syncTabsAndPanels_def l i by simp
  have g: "Some 2 \<noteq> activeTab demo_group_disabled_active"
    "\<not> SlTab.disabled (tab_heap demo_group_disabled_active 2)"
    by (simp_all add: s demo_group_def demo_tab_heap_def)
  from setActiveTab_effective[OF g, of None] obtain g' j where
    "setActiveTab demo_group_disabled_active (Some 2) None = Inr g'"
    and "g' = demo_group_disabled_active\<lparr>activeTab := Some 2,
                  tab_heap := activated_tabs demo_group_disabled_active 2,
                  panel_heap := activated_panels demo_group_disabled_active 2, indicator := j,
                  scrolled := scrolled demo_group_disabled_active @
                    (if isHorizontal (placement demo_group_disabled_active)
                     then [(2, Some (resolved_scrollBehavior None))] else []),
                  events := events demo_group_disabled_active @
                    (if resolved_emitEvents None
                     then (case activeTab demo_group_disabled_active of None \<Rightarrow> []
                           | Some p \<Rightarrow> [(''sl-tab-hide'', panel (tab_heap demo_group_disabled_active p))])
                          @ [(''sl-tab-show'', panel (tab_heap demo_group_disabled_active 2))]
                     else [])\<rparr>"
    by blast
  then have c: "getAllTabs (after_calls demo_group_disabled_active [(Some 2, None)]) True = [0, 1, 2, 3]"
    "tabs (after_calls demo_group_disabled_active [(Some 2, None)]) = [0, 2]"
    "SlTab.active (tab_heap (after_calls demo_group_disabled_active [(Some 2, None)]) 1)"
    "SlTab.active (tab_heap (after_calls demo_group_disabled_active [(Some 2, None)]) 2)"
    by (simp_all add: after_call_def getAllTabs_def activated_tabs_def s demo_group_def
          demo_tab_heap_def)
  from a b c show ?thesis by simp
qed

text \<open>
  Claim C1, amended. A sequence of \<open>setActiveTab\<close> calls, with any tab arguments (also
  \<open>undefined\<close>, also tabs outside the cache) and any options, leaves the caches \<open>tabs\<close>
  and \<open>panels\<close> as they were and makes \<open>activeTab\<close> the tab of the last call that passed
  the guard (another tab than the active one, not disabled). When no call passes the guard
  the group is unchanged, flags included. When at least one does, there is an active tab,
  a tab of the cache is flagged active exactly when it is the tab \<open>activeTab\<close> refers to, so
  that at most one cached tab is flagged, and a cached panel is flagged active exactly when
  its name equals the panel key of that tab. In either case the property of the flags of
  the cached tabs and panels holds after the calls when it held before them. Nothing is
  said of the flags of slotted tabs that are not in the cache.
\<close>

theorem setActiveTab_keeps_single_active:
  "tabs (after_calls g calls) = tabs g
   \<and> panels (after_calls g calls) = panels g
   \<and> activeTab (after_calls g calls) = expected_active g calls
   \<and> (\<not> took_effect g calls \<longrightarrow> after_calls g calls = g)
   \<and> (took_effect g calls \<longrightarrow>
        activeTab (after_calls g calls) \<noteq> None
        \<and> (\<forall>t \<in> set (tabs g).
              SlTab.active (tab_heap (after_calls g calls) t) \<longleftrightarrow>
              activeTab (after_calls g calls) = Some t)
        \<and> card {t \<in> set (tabs g). SlTab.active (tab_heap (after_calls g calls) t)} \<le> 1
        \<and> (\<forall>p \<in> set (panels g).
              SlTabPanel.active (panel_heap (after_calls g calls) p) \<longleftrightarrow>
                (case activeTab (after_calls g calls) of None \<Rightarrow> False
                 | Some a \<Rightarrow> name (panel_heap (after_calls g calls) p)
                              = panel (tab_heap (after_calls g calls) a))))
   \<and> (single_active g \<longrightarrow> single_active (after_calls g calls))"
proof (intro conjI impI)
  show "tabs (after_calls g calls) = tabs g" "panels (after_calls g calls) = panels g"
    "activeTab (after_calls g calls) = expected_active g calls"
    using after_calls_frame[of g calls] by simp_all
next
  assume "\<not> took_effect g calls"
  then show "after_calls g calls = g" by (rule after_calls_unchanged)
next
  assume "single_active g"
  then show "single_active (after_calls g calls)"
    by (simp add: after_calls_single_active)
next
  assume e: "took_effect g calls"
  then show "activeTab (after_calls g calls) \<noteq> None"
    by (simp add: after_calls_active)
  from e have c: "active_consistent (after_calls g calls)"
    by (simp add: after_calls_consistent)
  have f: "tabs (after_calls g calls) = tabs g" "panels (after_calls g calls) = panels g"
    using after_calls_frame[of g calls] by simp_all
  from c f show "\<forall>t \<in> set (tabs g).
              SlTab.active (tab_heap (after_calls g calls) t) \<longleftrightarrow>
              activeTab (after_calls g calls) = Some t"
    by (simp add: active_consistent_def)
  from consistent_at_most_one[OF c] f
  show "card {t \<in> set (tabs g). SlTab.active (tab_heap (after_calls g calls) t)} \<le> 1"
    by simp
  from c f show "\<forall>p \<in> set (panels g).
              SlTabPanel.active (panel_heap (after_calls g calls) p) \<longleftrightarrow>
                (case activeTab (after_calls g calls) of None \<Rightarrow> False
                 | Some a \<Rightarrow> name (panel_heap (after_calls g calls) p)
                              = panel (tab_heap (after_calls g calls) a))"
    by (simp add: active_consistent_def)
qed

theorem setActiveTab_keeps_single_active_witness:
  "tabs (after_calls demo_group demo_calls) = [0, 1, 2]
   \<and> activeTab (after_calls demo_group demo_calls) = Some 0
   \<and> SlTab.active (tab_heap (after_calls demo_group demo_calls) 0)
   \<and> SlTab.active (tab_heap (after_calls demo_group demo_calls) 1) = False
   \<and> SlTab.active (tab_heap (after_calls demo_group demo_calls) 2) = False
   \<and> card {t \<in> set (tabs demo_group).
             SlTab.active (tab_heap (after_calls demo_group demo_calls) t)} \<le> 1
   \<and> activeTab (after_calls demo_group_all_active demo_calls) = Some 0
   \<and> SlTab.active (tab_heap (after_calls demo_group_all_active demo_calls) 1) = False
   \<and> after_calls demo_group_all_active demo_noop_calls = demo_group_all_active"
proof -
  have e: "took_effect demo_group demo_calls" "took_effect demo_group_all_active demo_calls"
    by (simp_all add: demo_calls_def changes_active_def demo_group_all_active_def demo_group_def
          demo_tab_heap_def)
  have n: "\<not> took_effect demo_group_all_active demo_noop_calls"
    by (simp add: demo_noop_calls_def changes_active_def demo_group_all_active_def
          demo_group_def demo_tab_heap_def after_call_def setActiveTab_def Let_def)
  have x: "expected_active demo_group demo_calls = Some 0"
    "expected_active demo_group_all_active demo_calls = Some 0"
    by (simp_all add: expected_active_def next_active_def demo_calls_def
          demo_group_all_active_def demo_group_def demo_tab_heap_def)
  have t: "tabs demo_group = [0, 1, 2]" "tabs demo_group_all_active = [0, 1, 2]"
    by (simp_all add: demo_group_all_active_def demo_group_def)
  note one = setActiveTab_keeps_single_active[of demo_group demo_calls]
  note two = setActiveTab_keeps_single_active[of demo_group_all_active demo_calls]
  note three = setActiveTab_keeps_single_active[of demo_group_all_active demo_noop_calls]
  from one e(1) x(1) t(1)
  have a: "tabs (after_calls demo_group demo_calls) = [0, 1, 2]"
    "activeTab (after_calls demo_group demo_calls) = Some 0"
    "SlTab.active (tab_heap (after_calls demo_group demo_calls) 0)"
    "SlTab.active (tab_heap (after_calls demo_group demo_calls) 1) = False"
    "SlTab.active (tab_heap (after_calls demo_group demo_calls) 2) = False"
    "card {t \<in> set (tabs demo_group).
             SlTab.active (tab_heap (after_calls demo_group demo_calls) t)} \<le> 1"
    by simp_all
  from two e(2) x(2) t(2)
  have b: "activeTab (after_calls demo_group_all_active demo_calls) = Some 0"
    "SlTab.active (tab_heap (after_calls demo_group_all_active demo_calls) 1) = False"
    by simp_all
  from three n
  have c: "after_calls demo_group_all_active demo_noop_calls = demo_group_all_active"
    by blast
  from a b c show ?thesis by blast
qed

text \<open>
  Claim C2. Calling \<open>setActiveTab\<close> with the tab that is already the active tab, or with a
  disabled tab, returns normally and returns the group as it was: the stores of tabs and
  panels, the \<open>activeTab\<close> reference and the log of emitted notifications are unchanged,
  whatever the options, so no \<open>sl-tab-hide\<close> and no \<open>sl-tab-show\<close> is emitted and nothing
  is thrown.
\<close>

theorem setActiveTab_noop:
  assumes "activeTab g = Some t \<or> SlTab.disabled (tab_heap g t)"
  shows "setActiveTab g (Some t) opts = Inr g"
  using assms by (auto simp: setActiveTab_def Let_def)

theorem setActiveTab_noop_witness:
  "SlTab.disabled (tab_heap demo_group 3) \<and> activeTab demo_group = Some 1
   \<and> setActiveTab demo_group (Some 3) None = Inr demo_group
   \<and> setActiveTab demo_group (Some 1) smooth = Inr demo_group"
proof -
  have d: "SlTab.disabled (tab_heap demo_group 3)"
    by (simp add: demo_group_def demo_tab_heap_def)
  have a: "activeTab demo_group = Some 1"
    by (simp add: demo_group_def)
  from d have "activeTab demo_group = Some 3 \<or> SlTab.disabled (tab_heap demo_group 3)" ..
  note one = setActiveTab_noop[OF this, of None]
  from a have "activeTab demo_group = Some 1 \<or> SlTab.disabled (tab_heap demo_group 1)" ..
  note two = setActiveTab_noop[OF this, of smooth]
  from d a one two show ?thesis by blast
qed

text \<open>
  Claim C3. When the group has an active tab (the first cached tab flagged active) and
  that tab is among the slotted tabs, \<open>repositionIndicator\<close> sets the extent of the indicator
  along the axis of the placement (the width for top and bottom, the height for start and
  end) to the measured extent of the active tab, and its translation along that axis to the
  sum of the measured extents of the slotted tabs that precede the active tab in DOM order,
  negated for a horizontal placement when the text runs right to left; \<open>syncIndicator\<close>
  then shows the indicator with that geometry. When no tab is active, \<open>repositionIndicator\<close>
  returns at once and \<open>syncIndicator\<close> hides the indicator.
\<close>

theorem repositionIndicator_geometry:
  "(getActiveTab g = Some t \<and> t \<in> set (getAllTabs g True) \<longrightarrow>
      (isHorizontal (placement g) \<longrightarrow>
         width (indicator (repositionIndicator g)) = Px (clientWidth (tab_heap g t)) \<and>
         transform (indicator (repositionIndicator g)) =
           TranslateX ((if dir g = Rtl then - 1 else 1) *
             (\<Sum>x\<leftarrow>precedingTabs g t. clientWidth (tab_heap g x)))) \<and>
      (isVertical (placement g) \<longrightarrow>
         height (indicator (repositionIndicator g)) = Px (clientHeight (tab_heap g t)) \<and>
         transform (indicator (repositionIndicator g)) =
           TranslateY (\<Sum>x\<leftarrow>precedingTabs g t. clientHeight (tab_heap g x))) \<and>
      indicator (syncIndicator g) = (indicator (repositionIndicator g))\<lparr>display := DisplayBlock\<rparr>)
   \<and> (getActiveTab g = None \<longrightarrow>
        repositionIndicator g = g \<and>
        indicator (syncIndicator g) = (indicator g)\<lparr>display := DisplayNone\<rparr>)"
proof (intro conjI impI)
  assume "getActiveTab g = None"
  then show "repositionIndicator g = g"
    by (simp add: repositionIndicator_def)
next
  assume "getActiveTab g = None"
  then show "indicator (syncIndicator g) = (indicator g)\<lparr>display := DisplayNone\<rparr>"
    by (simp add: syncIndicator_def)
next
  assume a: "getActiveTab g = Some t \<and> t \<in> set (getAllTabs g True)"
  let ?g = "g\<lparr>indicator := (indicator g)\<lparr>display := DisplayBlock\<rparr>\<rparr>"
  have "getActiveTab ?g = Some t" "t \<in> set (getAllTabs ?g True)" using a by simp_all
  from repositionIndicator_active[OF this] repositionIndicator_active[of g t] a
  show "indicator (syncIndicator g) = (indicator (repositionIndicator g))\<lparr>display := DisplayBlock\<rparr>"
    by (simp add: syncIndicator_def precedingTabs_def)
next
  assume a: "getActiveTab g = Some t \<and> t \<in> set (getAllTabs g True)"
    and h: "isHorizontal (placement g)"
  with repositionIndicator_active[of g t]
  show "width (indicator (repositionIndicator g)) = Px (clientWidth (tab_heap g t))"
    by simp
  from a h repositionIndicator_active[of g t]
  show "transform (indicator (repositionIndicator g)) =
           TranslateX ((if dir g = Rtl then - 1 else 1) *
             (\<Sum>x\<leftarrow>precedingTabs g t. clientWidth (tab_heap g x)))"
    by simp
next
  assume a: "getActiveTab g = Some t \<and> t \<in> set (getAllTabs g True)"
    and v: "isVertical (placement g)"
  then have nh: "\<not> isHorizontal (placement g)"
    by (auto simp: isHorizontal_def isVertical_def)
  with a repositionIndicator_active[of g t]
  show "height (indicator (repositionIndicator g)) = Px (clientHeight (tab_heap g t))"
    by simp
  from a nh repositionIndicator_active[of g t]
  show "transform (indicator (repositionIndicator g)) =
           TranslateY (\<Sum>x\<leftarrow>precedingTabs g t. clientHeight (tab_heap g x))"
    by simp
qed

theorem repositionIndicator_geometry_witness:
  "(getActiveTab demo_group = Some 1 \<and> 1 \<in> set (getAllTabs demo_group True))
   \<and> isHorizontal (placement demo_group)
   \<and> width (indicator (repositionIndicator demo_group)) = Px 60
   \<and> transform (indicator (repositionIndicator demo_group)) = TranslateX 50
   \<and> transform (indicator (repositionIndicator (demo_group\<lparr>dir := Rtl\<rparr>))) = TranslateX (- 50)
   \<and> isVertical (placement (demo_group\<lparr>placement := Start\<rparr>))
   \<and> height (indicator (repositionIndicator (demo_group\<lparr>placement := Start\<rparr>))) = Px 24
   \<and> transform (indicator (repositionIndicator (demo_group\<lparr>placement := Start\<rparr>))) = TranslateY 20
   \<and> getActiveTab (demo_group\<lparr>tabs := [0, 2]\<rparr>) = None
   \<and> display (indicator (syncIndicator (demo_group\<lparr>tabs := [0, 2]\<rparr>))) = DisplayNone"
proof -
  have a: "getActiveTab demo_group = Some 1 \<and> 1 \<in> set (getAllTabs demo_group True)"
    by (simp add: getActiveTab_def getAllTabs_def demo_group_def demo_tab_heap_def)
  then have r: "getActiveTab (demo_group\<lparr>dir := Rtl\<rparr>) = Some 1
                \<and> 1 \<in> set (getAllTabs (demo_group\<lparr>dir := Rtl\<rparr>) True)"
    and s: "getActiveTab (demo_group\<lparr>placement := Start\<rparr>) = Some 1
                \<and> 1 \<in> set (getAllTabs (demo_group\<lparr>placement := Start\<rparr>) True)"
    by (simp_all add: getActiveTab_def getAllTabs_def)
  have h: "isHorizontal (placement demo_group)"
    "isHorizontal (placement (demo_group\<lparr>dir := Rtl\<rparr>))"
    by (simp_all add: isHorizontal_def demo_group_def)
  have v: "isVertical (placement (demo_group\<lparr>placement := Start\<rparr>))"
    by (simp add: isVertical_def)
  have n: "getActiveTab (demo_group\<lparr>tabs := [0, 2]\<rparr>) = None"
    by (simp add: getActiveTab_def demo_group_def demo_tab_heap_def)
  have p: "precedingTabs demo_group 1 = [0]"
    "precedingTabs (demo_group\<lparr>dir := Rtl\<rparr>) 1 = [0]"
    "precedingTabs (demo_group\<lparr>placement := Start\<rparr>) 1 = [0]"
    by (simp_all add: precedingTabs_def getAllTabs_def demo_group_def)
  have m: "clientWidth (tab_heap demo_group 0) = 50" "clientWidth (tab_heap demo_group 1) = 60"
    "clientHeight (tab_heap demo_group 0) = 20" "clientHeight (tab_heap demo_group 1) = 24"
    "dir demo_group = Ltr"
    by (simp_all add: demo_group_def demo_tab_heap_def)
  from repositionIndicator_geometry[of demo_group 1] a h(1) p(1) m
  have one: "width (indicator (repositionIndicator demo_group)) = Px 60
             \<and> transform (indicator (repositionIndicator demo_group)) = TranslateX 50"
    by simp
  from repositionIndicator_geometry[of "demo_group\<lparr>dir := Rtl\<rparr>" 1] r h(2) p(2) m
  have two: "transform (indicator (repositionIndicator (demo_group\<lparr>dir := Rtl\<rparr>))) = TranslateX (- 50)"
    by simp
  from repositionIndicator_geometry[of "demo_group\<lparr>placement := Start\<rparr>" 1] s v p(3) m
  have three: "height (indicator (repositionIndicator (demo_group\<lparr>placement := Start\<rparr>))) = Px 24
     \<and> transform (indicator (repositionIndicator (demo_group\<lparr>placement := Start\<rparr>))) = TranslateY 20"
    by simp
  from repositionIndicator_geometry[of "demo_group\<lparr>tabs := [0, 2]\<rparr>" 0] n
  have four: "display (indicator (syncIndicator (demo_group\<lparr>tabs := [0, 2]\<rparr>))) = DisplayNone"
    by simp
  from a h(1) v n one two three four show ?thesis by blast
qed

text \<open>
  Claim C4. Let the keyboard event come from a tab of this group, let a tab of the cache
  of navigable tabs (of length N) have the focus, at index i, and let the key be an arrow,
  Home or End. Then \<open>handleKeyDown\<close> returns normally, suppresses the default action and
  moves the focus to the cached tab at index 0 on Home, at index N - 1 on End, at the
  previous index on the key that means "previous" and at the next index on the key that
  means "next", where the two keys are left and right for top and bottom (swapped when the
  text runs right to left) and up and down for start and end, and where the previous index
  of 0 is N - 1 and the next index of N - 1 is 0.
\<close>

theorem handleKeyDown_navigation:
  assumes "closest_tab ev = Some tb" and "closest_group ev = Some (self g)"
    and "focused g = Some f" and "f \<in> set (tabs g)"
    and "key ev \<in> set navigation_keys"
  shows "\<exists>g'. handleKeyDown g ev = Inr (g', True) \<and> tabs g' = tabs g \<and>
           focused g' = Some (tabs g !
             landingIndex (placement g) (dir g) (key ev)
               (nat (indexOf (tabs g) f)) (length (tabs g)))"
proof -
  have b: "0 \<le> indexOf (tabs g) f \<and> indexOf (tabs g) f < int (length (tabs g))"
    using assms(4) by (rule indexOf_bounds)
  then have "nat (indexOf (tabs g) f) < length (tabs g)" by linarith
  from targetIndex_landing[OF this, of "placement g" "dir g" "key ev"] b
  have "nat (targetIndex (placement g) (dir g = Rtl) (key ev) (indexOf (tabs g) f)
          (int (length (tabs g)))) =
        landingIndex (placement g) (dir g) (key ev) (nat (indexOf (tabs g) f)) (length (tabs g))"
    by simp
  with handleKeyDown_focus[OF assms] show ?thesis by simp
qed

theorem handleKeyDown_navigation_witness:
  "(closest_tab (demo_key ''End'') = Some 1 \<and> closest_group (demo_key ''End'') = Some (self demo_group)
    \<and> focused demo_group = Some 1 \<and> 1 \<in> set (tabs demo_group) \<and> ''End'' \<in> set navigation_keys)
   \<and> (\<exists>g'. handleKeyDown demo_group (demo_key ''End'') = Inr (g', True) \<and> focused g' = Some 2)
   \<and> (\<exists>g'. handleKeyDown demo_group (demo_key ''Home'') = Inr (g', True) \<and> focused g' = Some 0)
   \<and> (\<exists>g'. handleKeyDown (demo_group\<lparr>focused := Some 2\<rparr>) (demo_key ''ArrowRight'') = Inr (g', True)
            \<and> focused g' = Some 0)
   \<and> (\<exists>g'. handleKeyDown (demo_group\<lparr>focused := Some 0, dir := Rtl\<rparr>) (demo_key ''ArrowRight'')
              = Inr (g', True) \<and> focused g' = Some 2)"
proof -
  have ev: "closest_tab (demo_key k) = Some 1" "closest_group (demo_key k) = Some 7"
    "key (demo_key k) = k" for k
    by (simp_all add: demo_key_def)
  have g: "self demo_group = 7" "focused demo_group = Some 1" "tabs demo_group = [0, 1, 2]"
    "placement demo_group = Top" "dir demo_group = Ltr"
    by (simp_all add: demo_group_def)
  have keys: "''End'' \<in> set navigation_keys" "''Home'' \<in> set navigation_keys"
    "''ArrowRight'' \<in> set navigation_keys"
    by (simp_all add: navigation_keys_def)
  have i: "nat (indexOf [0, 1, 2] (1::nat)) = 1" "nat (indexOf [0, 1, 2] (2::nat)) = 2"
    "nat (indexOf [0, 1, 2] (0::nat)) = 0"
    by (simp_all add: Let_def)
  from handleKeyDown_navigation[of "demo_key ''End''" 1 demo_group 1]
  have one: "\<exists>g'. handleKeyDown demo_group (demo_key ''End'') = Inr (g', True) \<and> focused g' = Some 2"
    using ev g keys i
    by (auto simp: landingIndex_def previous_key_def next_key_def isHorizontal_def)
  from handleKeyDown_navigation[of "demo_key ''Home''" 1 demo_group 1]
  have two: "\<exists>g'. handleKeyDown demo_group (demo_key ''Home'') = Inr (g', True) \<and> focused g' = Some 0"
    using ev g keys i
    by (auto simp: landingIndex_def previous_key_def next_key_def isHorizontal_def)
  from handleKeyDown_navigation[of "demo_key ''ArrowRight''" 1 "demo_group\<lparr>focused := Some 2\<rparr>" 2]
  have three: "\<exists>g'. handleKeyDown (demo_group\<lparr>focused := Some 2\<rparr>) (demo_key ''ArrowRight'')
                  = Inr (g', True) \<and> focused g' = Some 0"
    using ev g keys i
    by (auto simp: landingIndex_def previous_key_def next_key_def isHorizontal_def)
  from handleKeyDown_navigation[of "demo_key ''ArrowRight''" 1
         "demo_group\<lparr>focused := Some 0, dir := Rtl\<rparr>" 0]
  have four: "\<exists>g'. handleKeyDown (demo_group\<lparr>focused := Some 0, dir := Rtl\<rparr>) (demo_key ''ArrowRight'')
                  = Inr (g', True) \<and> focused g' = Some 2"
    using ev g keys i
    by (auto simp: landingIndex_def previous_key_def next_key_def isHorizontal_def)
  have "closest_tab (demo_key ''End'') = Some 1 \<and> closest_group (demo_key ''End'') = Some (self demo_group)
    \<and> focused demo_group = Some 1 \<and> 1 \<in> set (tabs demo_group) \<and> ''End'' \<in> set navigation_keys"
    using ev g keys by simp
  with one two three four show ?thesis by blast
qed

text \<open>
  Claim C9. When a call of \<open>setActiveTab\<close> changes the active tab (the tab is not the
  active one and is not disabled) and \<open>emitEvents\<close> is enabled (true or left out), the call
  appends to the emitted notifications, in this order, \<open>sl-tab-hide\<close> with the panel key of
  the previously active tab and \<open>sl-tab-show\<close> with the panel key of the new tab when there
  was a previously active tab, and \<open>sl-tab-show\<close> alone when there was none.
\<close>

theorem setActiveTab_event_order:
  assumes "Some t \<noteq> activeTab g" and "\<not> SlTab.disabled (tab_heap g t)"
    and "resolved_emitEvents opts"
  shows "\<exists>g'. setActiveTab g (Some t) opts = Inr g' \<and> activeTab g' = Some t \<and>
           events g' = events g @
             (case activeTab g of
                Some previousTab \<Rightarrow> [(''sl-tab-hide'', panel (tab_heap g previousTab)),
                                      (''sl-tab-show'', panel (tab_heap g t))]
              | None \<Rightarrow> [(''sl-tab-show'', panel (tab_heap g t))])"
  using setActiveTab_effective[OF assms(1,2), of opts] assms(3)
  by (auto split: option.splits)

theorem setActiveTab_event_order_witness:
  "(Some 2 \<noteq> activeTab demo_group \<and> \<not> SlTab.disabled (tab_heap demo_group 2)
    \<and> resolved_emitEvents None)
   \<and> (\<exists>g'. setActiveTab demo_group (Some 2) None = Inr g' \<and>
            events g' = [(''sl-tab-hide'', ''custom''), (''sl-tab-show'', ''advanced'')])
   \<and> (\<exists>g'. setActiveTab (demo_group\<lparr>activeTab := None\<rparr>) (Some 2) smooth = Inr g' \<and>
            events g' = [(''sl-tab-show'', ''advanced'')])"
proof -
  have h: "Some 2 \<noteq> activeTab demo_group" "\<not> SlTab.disabled (tab_heap demo_group 2)"
    "resolved_emitEvents None" "resolved_emitEvents smooth"
    by (simp_all add: demo_group_def demo_tab_heap_def resolved_emitEvents_def smooth_def)
  have v: "events demo_group = []" "activeTab demo_group = Some 1"
    "panel (tab_heap demo_group 1) = ''custom''" "panel (tab_heap demo_group 2) = ''advanced''"
    by (simp_all add: demo_group_def demo_tab_heap_def)
  from setActiveTab_event_order[OF h(1) h(2) h(3)] v
  have one: "\<exists>g'. setActiveTab demo_group (Some 2) None = Inr g' \<and>
            events g' = [(''sl-tab-hide'', ''custom''), (''sl-tab-show'', ''advanced'')]"
    by auto
  from setActiveTab_event_order[of 2 "demo_group\<lparr>activeTab := None\<rparr>" smooth] h v
  have two: "\<exists>g'. setActiveTab (demo_group\<lparr>activeTab := None\<rparr>) (Some 2) smooth = Inr g' \<and>
            events g' = [(''sl-tab-show'', ''advanced'')]"
    by auto
  from h one two show ?thesis by blast
qed

text \<open>
  Claim C10. Once the caches are built by \<open>syncTabsAndPanels\<close>, \<open>show(panelName)\<close> does
  nothing, silently, whenever every slotted tab whose panel key is \<open>panelName\<close> is disabled
  (in particular when no slotted tab has that panel key): the cache of tabs is the list of
  slotted tabs without the disabled ones, the search in it finds no tab, and the group is
  returned as it was.
\<close>

theorem show_disabled_noop:
  assumes "\<forall>el \<in> set (nav_slot g).
             tagName el = ''sl-tab'' \<and> panel (tab_heap g (ref el)) = p \<longrightarrow>
             SlTab.disabled (tab_heap g (ref el))"
  shows "tabs (syncTabsAndPanels g) = getAllTabs g False \<and>
         find (\<lambda>el. panel (tab_heap (syncTabsAndPanels g) el) = p)
              (tabs (syncTabsAndPanels g)) = None \<and>
         SlTabGroup_show (syncTabsAndPanels g) p = Inr (syncTabsAndPanels g)"
proof -
  obtain i where i:
    "syncTabsAndPanels g = g\<lparr>tabs := getAllTabs g False, panels := getAllPanels g, indicator := i\<rparr>"
    using syncIndicator_frame[of "g\<lparr>tabs := getAllTabs g False, panels := getAllPanels g\<rparr>"]
    by (auto simp: syncTabsAndPanels_def)
  have "find (\<lambda>el. panel (tab_heap g el) = p) (getAllTabs g False) = None"
    using assms by (auto simp: find_None_iff_all getAllTabs_def)
  then show ?thesis
    by (simp add: i SlTabGroup_show_def)
qed

theorem show_disabled_noop_witness:
  "getAllTabs demo_group True = [0, 1, 2, 3]
   \<and> panel (tab_heap demo_group 3) = ''disabled''
   \<and> tabs (syncTabsAndPanels demo_group) = [0, 1, 2]
   \<and> SlTabGroup_show (syncTabsAndPanels demo_group) ''disabled'' = Inr (syncTabsAndPanels demo_group)"
proof -
  have h: "\<forall>el \<in> set (nav_slot demo_group).
      tagName el = ''sl-tab'' \<and> panel (tab_heap demo_group (ref el)) = ''disabled'' \<longrightarrow>
      SlTab.disabled (tab_heap demo_group (ref el))"
    by (simp add: demo_group_def demo_tab_heap_def)
  have c: "getAllTabs demo_group False = [0, 1, 2]" "getAllTabs demo_group True = [0, 1, 2, 3]"
    "panel (tab_heap demo_group 3) = ''disabled''"
    by (simp_all add: getAllTabs_def demo_group_def demo_tab_heap_def)
  from show_disabled_noop[OF h] c show ?thesis by simp
qed

section \<open>Tooltip: auxiliary facts\<close>

text \<open>The open handler stops the animations of the body; those of the popup container stay.\<close>

lemma handleOpenChange_keeps_popup_animations:
  "filter (\<lambda>a. target a = PopupContainer) (animations (handleOpenChange t))
     = filter (\<lambda>a. target a = PopupContainer) (animations t)"
proof -
  have "filter (\<lambda>a. target a = PopupContainer) (filter (\<lambda>a. target a \<noteq> Body) xs)
          = filter (\<lambda>a. target a = PopupContainer) xs" for xs :: "animation list"
    by (induction xs) auto
  then show ?thesis
    by (simp add: handleOpenChange_def suspend_def stopAnimations_def emit_tooltip_def)
qed

text \<open>A second \<open>show()\<close> or \<open>hide()\<close> finds the property already set.\<close>

lemma show_twice: "SlTooltip_show (fst (SlTooltip_show t)) = (fst (SlTooltip_show t), Undefined)"
  by (simp add: SlTooltip_show_def set_open_def)

lemma hide_twice: "SlTooltip_hide (fst (SlTooltip_hide t)) = (fst (SlTooltip_hide t), Undefined)"
  by (simp add: SlTooltip_hide_def set_open_def)

text \<open>From rest, one transition of \<open>open\<close> runs the handler through its three stages.\<close>

lemma settle_after_show:
  assumes "\<not> open t" and "\<not> SlTooltip.disabled t" and "hasUpdated t" and "idle t"
  shows "emitted (settle (update (set_open True t))) = emitted t @ [''sl-show'', ''sl-after-show'']"
proof -
  define u0 where "u0 = update (set_open True t)"
  have u0: "suspended u0 = [ShowAwaitStop]" "animations u0 = []"
    "emitted u0 = emitted t @ [''sl-show'']"
    using assms
    by (simp_all add: u0_def update_def set_open_def idle_def handleOpenChange_def Let_def
        suspend_def stopAnimations_def emit_tooltip_def)
  obtain u1 where u1: "step u0 = Some u1"
    "suspended u1 = [ShowAwaitAnimate (next_animation u0)]"
    "map anim_id (animations u1) = [next_animation u0]" "emitted u1 = emitted u0"
    using u0 by (simp add: step_def Let_def suspend_def animateTo_def)
  obtain u2 where u2: "step u1 = Some u2" "suspended u2 = suspended u1" "animations u2 = []"
    "emitted u2 = emitted u1"
    using u1 by (auto simp: step_def split: list.splits)
  obtain u3 where u3: "step u2 = Some u3" "suspended u3 = []" "animations u3 = []"
    "emitted u3 = emitted u2 @ [''sl-after-show'']"
    using u2 u1 by (simp add: step_def emit_tooltip_def)
  have "step u3 = None" using u3 by (simp add: step_def)
  then have "settle u0 = u3"
    using u1(1) u2(1) u3(1) by (simp add: settle.simps)
  then show ?thesis using u0 u1 u2 u3 by (simp add: u0_def)
qed

lemma settle_after_show_disabled:
  assumes "\<not> open t" and "SlTooltip.disabled t" and "idle t"
  shows "emitted (settle (update (set_open True t))) = emitted t"
    and "open (settle (update (set_open True t)))"
proof -
  define u0 where "u0 = update (set_open True t)"
  have u0: "suspended u0 = []" "animations u0 = []" "emitted u0 = emitted t" "open u0"
    using assms
    by (simp_all add: u0_def update_def set_open_def idle_def handleOpenChange_def Let_def)
  then have "step u0 = None" by (simp add: step_def)
  then have "settle u0 = u0" by (simp add: settle.simps)
  then show "emitted (settle (update (set_open True t))) = emitted t"
    and "open (settle (update (set_open True t)))"
    using u0 by (simp_all add: u0_def)
qed

lemma settle_after_hide:
  assumes "open t" and "hasUpdated t" and "idle t"
  shows "emitted (settle (update (set_open False t))) = emitted t @ [''sl-hide'', ''sl-after-hide'']"
proof -
  define u0 where "u0 = update (set_open False t)"
  have u0: "suspended u0 = [HideAwaitStop]" "animations u0 = []"
    "emitted u0 = emitted t @ [''sl-hide'']"
    using assms
    by (simp_all add: u0_def update_def set_open_def idle_def handleOpenChange_def Let_def
        suspend_def stopAnimations_def emit_tooltip_def)
  obtain u1 where u1: "step u0 = Some u1"
    "suspended u1 = [HideAwaitAnimate (next_animation u0)]"
    "map anim_id (animations u1) = [next_animation u0]" "emitted u1 = emitted u0"
    using u0 by (simp add: step_def Let_def suspend_def animateTo_def)
  obtain u2 where u2: "step u1 = Some u2" "suspended u2 = suspended u1" "animations u2 = []"
    "emitted u2 = emitted u1"
    using u1 by (auto simp: step_def split: list.splits)
  obtain u3 where u3: "step u2 = Some u3" "suspended u3 = []" "animations u3 = []"
    "emitted u3 = emitted u2 @ [''sl-after-hide'']"
    using u2 u1 by (simp add: step_def emit_tooltip_def Let_def)
  have "step u3 = None" using u3 by (simp add: step_def)
  then have "settle u0 = u3"
    using u1(1) u2(1) u3(1) by (simp add: settle.simps)
  then show ?thesis using u0 u1 u2 u3 by (simp add: u0_def)
qed

text \<open>The event loop neither touches \<open>open\<close> nor retracts a notification.\<close>

lemma step_open: "step t = Some t' \<Longrightarrow> open t' = open t"
proof (cases "find (ready t) (suspended t)")
  case None
  assume "step t = Some t'"
  with None show ?thesis by (auto simp: step_def split: list.splits)
next
  case (Some p)
  assume "step t = Some t'"
  with Some show ?thesis
    by (cases p) (auto simp: step_def suspend_def animateTo_def emit_tooltip_def Let_def)
qed

lemma step_emitted: "step t = Some t' \<Longrightarrow> \<exists>es. emitted t' = emitted t @ es"
proof (cases "find (ready t) (suspended t)")
  case None
  assume "step t = Some t'"
  with None show ?thesis by (auto simp: step_def split: list.splits)
next
  case (Some p)
  assume "step t = Some t'"
  with Some show ?thesis
    by (cases p) (auto simp: step_def suspend_def animateTo_def emit_tooltip_def Let_def)
qed

lemma settle_open: "open (settle t) = open t"
proof (induction t rule: settle.induct)
  case (1 t)
  show ?case
  proof (cases "step t")
    case None
    then show ?thesis by (simp add: settle.simps)
  next
    case (Some t')
    with 1 step_open[OF Some] show ?thesis by (simp add: settle.simps)
  qed
qed

lemma settle_emitted: "\<exists>es. emitted (settle t) = emitted t @ es"
proof (induction t rule: settle.induct)
  case (1 t)
  show ?case
  proof (cases "step t")
    case None
    then show ?thesis by (simp add: settle.simps)
  next
    case (Some t')
    from 1[OF Some] obtain es where "emitted (settle t') = emitted t' @ es" by blast
    moreover from step_emitted[OF Some] obtain es' where "emitted t' = emitted t @ es'" by blast
    ultimately show ?thesis using Some by (simp add: settle.simps)
  qed
qed

text \<open>
  A call suspended on the hide branch is never stuck: each turn of the loop either emits
  \<open>sl-after-hide\<close> or leaves such a call suspended, so the loop ends only after emitting it.
\<close>

lemma hide_pending_step:
  assumes "hide_pending t"
  shows "\<exists>t'. step t = Some t' \<and>
           ((hide_pending t' \<and> emitted t' = emitted t) \<or>
            (hide_pending t' \<and> (\<exists>e. emitted t' = emitted t @ [e])) \<or>
            emitted t' = emitted t @ [''sl-after-hide''])"
proof (cases "find (ready t) (suspended t)")
  case None
  from assms obtain p where p: "p \<in> set (suspended t)"
    "p = HideAwaitStop \<or> (\<exists>i. p = HideAwaitAnimate i)"
    by (auto simp: hide_pending_def)
  from None have "\<not> ready t p" using p(1) by (auto simp: find_None_iff_all)
  with p(2) have "animations t \<noteq> []" by auto
  then obtain a rest where "animations t = a # rest" by (cases "animations t") auto
  with None assms show ?thesis by (simp add: step_def hide_pending_def)
next
  case (Some q)
  from assms obtain p where p: "p \<in> set (suspended t)"
    "p = HideAwaitStop \<or> (\<exists>i. p = HideAwaitAnimate i)"
    by (auto simp: hide_pending_def)
  have st: "step t = Some (continue q (t\<lparr>suspended := remove1 q (suspended t)\<rparr>))"
    using Some by (simp add: step_def)
  show ?thesis
  proof (cases q)
    case ShowAwaitStop
    then have "p \<in> set (remove1 q (suspended t))" using p by auto
    then show ?thesis using st ShowAwaitStop p(2)
      by (auto simp: hide_pending_def suspend_def animateTo_def Let_def)
  next
    case (ShowAwaitAnimate i)
    then have "p \<in> set (remove1 q (suspended t))" using p by auto
    then show ?thesis using st ShowAwaitAnimate p(2)
      by (auto simp: hide_pending_def emit_tooltip_def)
  next
    case HideAwaitStop
    then show ?thesis using st
      by (auto simp: hide_pending_def suspend_def animateTo_def Let_def)
  next
    case (HideAwaitAnimate i)
    then show ?thesis using st
      by (auto simp: emit_tooltip_def Let_def)
  qed
qed

lemma settle_hide_pending:
  "hide_pending t \<Longrightarrow>
     ''sl-after-hide'' \<in> set (drop (length (emitted t)) (emitted (settle t)))"
proof (induction t rule: settle.induct)
  case (1 t)
  from hide_pending_step[OF "1.prems"] obtain t' where st: "step t = Some t'"
    and alt: "(hide_pending t' \<and> emitted t' = emitted t) \<or>
            (hide_pending t' \<and> (\<exists>e. emitted t' = emitted t @ [e])) \<or>
            emitted t' = emitted t @ [''sl-after-hide'']" by blast
  have s: "settle t = settle t'" using st by (simp add: settle.simps)
  obtain es where es: "emitted (settle t') = emitted t' @ es"
    using settle_emitted by blast
  from alt show ?case
  proof (elim disjE conjE exE)
    assume "hide_pending t'" "emitted t' = emitted t"
    with "1.IH"[OF st] s show ?thesis by simp
  next
    fix e assume h: "hide_pending t'" and e: "emitted t' = emitted t @ [e]"
    from "1.IH"[OF st h]
    have "''sl-after-hide'' \<in> set (drop (length (emitted t')) (emitted (settle t')))" .
    then show ?thesis using s es e by simp
  next
    assume "emitted t' = emitted t @ [''sl-after-hide'']"
    then show ?thesis using s es by simp
  qed
qed

section \<open>Tooltip: properties\<close>

text \<open>
  Claim C5. The claim is that a toggle of \<open>open\<close> made while the opposite animation is
  still in flight cancels that animation, on the animated element, before the new animation
  starts, so that the show and hide states never overlap. The handler does call
  \<open>stopAnimations\<close> before \<open>animateTo\<close>, but on the body, while both animations run on the
  popup container. Evaluated on a shown tooltip at rest: \<open>open\<close> is set to false and the hide
  animation starts; \<open>open\<close> is set to true while it runs and the show animation starts on
  the same element with the hide animation still in flight; when the hide animation then
  ends, the suspended hide branch deactivates the popup and hides the body, and the tooltip
  comes to rest with \<open>open\<close> true and its body hidden.
\<close>

theorem reopen_during_hide_overlaps:
  "step (update (set_open False shown_tooltip)) = Some hiding_tooltip
   \<and> step (update (set_open True hiding_tooltip)) = Some reopened_tooltip
   \<and> map target (animations reopened_tooltip) = [PopupContainer, PopupContainer]
   \<and> map keyframes (animations reopened_tooltip) = [TooltipHide, TooltipShow]
   \<and> open (settle reopened_tooltip)
   \<and> body_hidden (settle reopened_tooltip)
   \<and> popup_active (settle reopened_tooltip) = False
   \<and> emitted (settle reopened_tooltip)
       = [''sl-hide'', ''sl-show'', ''sl-after-hide'', ''sl-after-show'']"
proof -
  have a: "step (update (set_open False shown_tooltip)) = Some hiding_tooltip"
    by (simp add: shown_tooltip_def hiding_tooltip_def update_def set_open_def
          handleOpenChange_def step_def suspend_def stopAnimations_def emit_tooltip_def
          animateTo_def Let_def)
  have b: "step (update (set_open True hiding_tooltip)) = Some reopened_tooltip"
    by (simp add: hiding_tooltip_def reopened_tooltip_def update_def set_open_def
          handleOpenChange_def step_def suspend_def stopAnimations_def emit_tooltip_def
          animateTo_def Let_def)
  have c: "settle reopened_tooltip =
     \<lparr>open = True, disabled = False, hasUpdated = True, body_hidden = True,
      popup_active = False, changed_open = None, changed_disabled = None, animations = [],
      next_animation = 2, suspended = [],
      emitted = [''sl-hide'', ''sl-show'', ''sl-after-hide'', ''sl-after-show'']\<rparr>"
    by (simp add: reopened_tooltip_def settle.simps step_def emit_tooltip_def Let_def)
  have d: "map target (animations reopened_tooltip) = [PopupContainer, PopupContainer]"
    "map keyframes (animations reopened_tooltip) = [TooltipHide, TooltipShow]"
    by (simp_all add: reopened_tooltip_def)
  from a b d show ?thesis by (simp add: c)
qed

text \<open>
  Claim C6. When \<open>open\<close> has become true while \<open>disabled\<close> is true, the open handler
  returns at its guard and changes nothing: \<open>open\<close> remains true, no notification is
  emitted (neither \<open>sl-show\<close> now nor, no call being suspended and no animation started,
  \<open>sl-after-show\<close> later), the body keeps its hidden state and the positioning element is not
  activated.
\<close>

theorem handleOpenChange_disabled_noop:
  assumes "open t" and "SlTooltip.disabled t"
  shows "handleOpenChange t = t \<and> open (handleOpenChange t) \<and>
         emitted (handleOpenChange t) = emitted t \<and>
         body_hidden (handleOpenChange t) = body_hidden t \<and>
         popup_active (handleOpenChange t) = popup_active t \<and>
         suspended (handleOpenChange t) = suspended t \<and>
         animations (handleOpenChange t) = animations t"
  using assms by (simp add: handleOpenChange_def)

theorem handleOpenChange_disabled_noop_witness:
  "open (set_open True disabled_tooltip) \<and> SlTooltip.disabled (set_open True disabled_tooltip)
   \<and> handleOpenChange (set_open True disabled_tooltip) = set_open True disabled_tooltip
   \<and> emitted (handleOpenChange (set_open True disabled_tooltip)) = []
   \<and> body_hidden (handleOpenChange (set_open True disabled_tooltip))
   \<and> popup_active (handleOpenChange (set_open True disabled_tooltip)) = False"
proof -
  have h: "open (set_open True disabled_tooltip)"
    "SlTooltip.disabled (set_open True disabled_tooltip)"
    by (simp_all add: set_open_def disabled_tooltip_def)
  have v: "emitted (set_open True disabled_tooltip) = []"
    "body_hidden (set_open True disabled_tooltip)"
    "popup_active (set_open True disabled_tooltip) = False"
    by (simp_all add: set_open_def disabled_tooltip_def)
  from handleOpenChange_disabled_noop[OF h] h v show ?thesis by simp
qed

text \<open>
  Claim C7, as stated, at a disabled tooltip: \<open>show()\<close> followed at once by \<open>show()\<close> on a
  closed, disabled tooltip sets \<open>open\<close> and returns the promise on \<open>sl-after-show\<close>, but the
  open handler returns at its guard; the tooltip comes to rest with \<open>open\<close> true and no
  notification at all, so the number of "shown" notifications is zero, not one.
\<close>

theorem show_twice_disabled_counterexample:
  "snd (SlTooltip_show disabled_tooltip) = WaitForEvent ''sl-after-show''
   \<and> open (settle (update (fst (SlTooltip_show (fst (SlTooltip_show disabled_tooltip))))))
   \<and> count_list (emitted (settle (update
        (fst (SlTooltip_show (fst (SlTooltip_show disabled_tooltip))))))) ''sl-after-show'' = 0"
  by (simp add: disabled_tooltip_def SlTooltip_show_def set_open_def update_def
        handleOpenChange_def settle.simps step_def Let_def)

text \<open>
  Claim C7, amended. \<open>show()\<close> returns at once, without any change of state and without
  notification, when \<open>open\<close> is already true; otherwise it sets \<open>open\<close> to true and returns
  the promise that resolves on \<open>sl-after-show\<close>. A second \<open>show()\<close> right after the first is
  always the no-op. On a rendered tooltip at rest that is closed, the two calls together
  lead to exactly one \<open>sl-show\<close> and one \<open>sl-after-show\<close> when the tooltip is enabled, and to
  no notification when it is disabled. \<open>hide()\<close> is symmetric with respect to \<open>open\<close> false
  and \<open>sl-after-hide\<close>, and on a rendered tooltip at rest that is open two calls lead to
  exactly one \<open>sl-hide\<close> and one \<open>sl-after-hide\<close>, disabled or not.
\<close>

theorem show_hide_idempotent:
  "(open t \<longrightarrow> SlTooltip_show t = (t, Undefined))
   \<and> (\<not> open t \<longrightarrow>
        SlTooltip_show t = (set_open True t, WaitForEvent ''sl-after-show'') \<and>
        open (fst (SlTooltip_show t)))
   \<and> SlTooltip_show (fst (SlTooltip_show t)) = (fst (SlTooltip_show t), Undefined)
   \<and> (\<not> open t \<and> hasUpdated t \<and> idle t \<longrightarrow>
        emitted (settle (update (fst (SlTooltip_show (fst (SlTooltip_show t)))))) =
          emitted t @ (if SlTooltip.disabled t then [] else [''sl-show'', ''sl-after-show'']))
   \<and> (\<not> open t \<longrightarrow> SlTooltip_hide t = (t, Undefined))
   \<and> (open t \<longrightarrow>
        SlTooltip_hide t = (set_open False t, WaitForEvent ''sl-after-hide'') \<and>
        \<not> open (fst (SlTooltip_hide t)))
   \<and> SlTooltip_hide (fst (SlTooltip_hide t)) = (fst (SlTooltip_hide t), Undefined)
   \<and> (open t \<and> hasUpdated t \<and> idle t \<longrightarrow>
        emitted (settle (update (fst (SlTooltip_hide (fst (SlTooltip_hide t)))))) =
          emitted t @ [''sl-hide'', ''sl-after-hide''])"
proof (intro conjI impI)
  show "SlTooltip_show (fst (SlTooltip_show t)) = (fst (SlTooltip_show t), Undefined)"
    by (rule show_twice)
  show "SlTooltip_hide (fst (SlTooltip_hide t)) = (fst (SlTooltip_hide t), Undefined)"
    by (rule hide_twice)
next
  assume "open t"
  then show "SlTooltip_show t = (t, Undefined)"
    and "SlTooltip_hide t = (set_open False t, WaitForEvent ''sl-after-hide'')"
    and "\<not> open (fst (SlTooltip_hide t))"
    by (simp_all add: SlTooltip_show_def SlTooltip_hide_def set_open_def)
next
  assume "\<not> open t"
  then show "SlTooltip_hide t = (t, Undefined)"
    and "SlTooltip_show t = (set_open True t, WaitForEvent ''sl-after-show'')"
    and "open (fst (SlTooltip_show t))"
    by (simp_all add: SlTooltip_show_def SlTooltip_hide_def set_open_def)
next
  assume a: "\<not> open t \<and> hasUpdated t \<and> idle t"
  then have "fst (SlTooltip_show (fst (SlTooltip_show t))) = set_open True t"
    by (simp add: show_twice) (simp add: SlTooltip_show_def)
  with a settle_after_show[of t] settle_after_show_disabled(1)[of t]
  show "emitted (settle (update (fst (SlTooltip_show (fst (SlTooltip_show t)))))) =
          emitted t @ (if SlTooltip.disabled t then [] else [''sl-show'', ''sl-after-show''])"
    by simp
next
  assume a: "open t \<and> hasUpdated t \<and> idle t"
  then have "fst (SlTooltip_hide (fst (SlTooltip_hide t))) = set_open False t"
    by (simp add: hide_twice) (simp add: SlTooltip_hide_def)
  with a settle_after_hide[of t]
  show "emitted (settle (update (fst (SlTooltip_hide (fst (SlTooltip_hide t)))))) =
          emitted t @ [''sl-hide'', ''sl-after-hide'']"
    by simp
qed

theorem show_hide_idempotent_witness:
  "SlTooltip_show shown_tooltip = (shown_tooltip, Undefined)
   \<and> snd (SlTooltip_show closed_tooltip) = WaitForEvent ''sl-after-show''
   \<and> emitted (settle (update (fst (SlTooltip_show (fst (SlTooltip_show closed_tooltip))))))
       = [''sl-show'', ''sl-after-show'']
   \<and> emitted (settle (update (fst (SlTooltip_show (fst (SlTooltip_show disabled_tooltip))))))
       = []
   \<and> SlTooltip_hide closed_tooltip = (closed_tooltip, Undefined)
   \<and> snd (SlTooltip_hide shown_tooltip) = WaitForEvent ''sl-after-hide''
   \<and> emitted (settle (update (fst (SlTooltip_hide (fst (SlTooltip_hide shown_tooltip))))))
       = [''sl-hide'', ''sl-after-hide'']"
proof -
  have s: "open shown_tooltip" "hasUpdated shown_tooltip" "idle shown_tooltip"
    "emitted shown_tooltip = []"
    by (simp_all add: shown_tooltip_def idle_def)
  have c: "\<not> open closed_tooltip" "hasUpdated closed_tooltip" "idle closed_tooltip"
    "\<not> SlTooltip.disabled closed_tooltip" "emitted closed_tooltip = []"
    by (simp_all add: closed_tooltip_def idle_def)
  have d: "\<not> open disabled_tooltip" "hasUpdated disabled_tooltip" "idle disabled_tooltip"
    "SlTooltip.disabled disabled_tooltip" "emitted disabled_tooltip = []"
    by (simp_all add: disabled_tooltip_def idle_def)
  note shown = show_hide_idempotent[of shown_tooltip]
  note closed = show_hide_idempotent[of closed_tooltip]
  note disabled = show_hide_idempotent[of disabled_tooltip]
  from shown s(1) have one: "SlTooltip_show shown_tooltip = (shown_tooltip, Undefined)"
    by blast
  from shown s(1)
  have "SlTooltip_hide shown_tooltip = (set_open False shown_tooltip, WaitForEvent ''sl-after-hide'')"
    by blast
  then have two: "snd (SlTooltip_hide shown_tooltip) = WaitForEvent ''sl-after-hide''"
    by simp
  from shown s(1,2,3)
  have "emitted (settle (update (fst (SlTooltip_hide (fst (SlTooltip_hide shown_tooltip))))))
       = emitted shown_tooltip @ [''sl-hide'', ''sl-after-hide'']"
    by blast
  then have three:
    "emitted (settle (update (fst (SlTooltip_hide (fst (SlTooltip_hide shown_tooltip))))))
       = [''sl-hide'', ''sl-after-hide'']"
    unfolding s(4) by simp
  from closed c(1)
  have "SlTooltip_show closed_tooltip = (set_open True closed_tooltip, WaitForEvent ''sl-after-show'')"
    by blast
  then have four: "snd (SlTooltip_show closed_tooltip) = WaitForEvent ''sl-after-show''"
    by simp
  from closed c(1) have five: "SlTooltip_hide closed_tooltip = (closed_tooltip, Undefined)"
    by blast
  from closed c(1,2,3)
  have "emitted (settle (update (fst (SlTooltip_show (fst (SlTooltip_show closed_tooltip))))))
       = emitted closed_tooltip @
           (if SlTooltip.disabled closed_tooltip then [] else [''sl-show'', ''sl-after-show''])"
    by blast
  then have six:
    "emitted (settle (update (fst (SlTooltip_show (fst (SlTooltip_show closed_tooltip))))))
       = [''sl-show'', ''sl-after-show'']"
    unfolding c(5) using c(4) by simp
  from disabled d(1,2,3)
  have "emitted (settle (update (fst (SlTooltip_show (fst (SlTooltip_show disabled_tooltip))))))
       = emitted disabled_tooltip @
           (if SlTooltip.disabled disabled_tooltip then [] else [''sl-show'', ''sl-after-show''])"
    by blast
  then have seven:
    "emitted (settle (update (fst (SlTooltip_show (fst (SlTooltip_show disabled_tooltip))))))
       = []"
    unfolding d(5) using d(4) by simp
  from one two three four five six seven show ?thesis by blast
qed

text \<open>
  Claim C8, as stated, at an open tooltip before its first update, and at a rendered, closed
  tooltip on which \<open>show()\<close> was called in the same turn: setting \<open>disabled\<close> to true runs
  \<open>hide()\<close> and \<open>open\<close> becomes false, but the open handler is not run (it waits for the
  first update, and in the second case \<open>open\<close> is back at the value it had before the
  pending change), so the tooltip comes to rest without any notification.
\<close>

theorem disabling_without_notification_counterexample:
  "open unrendered_tooltip
   \<and> open (settle (update (set_disabled True unrendered_tooltip))) = False
   \<and> emitted (settle (update (set_disabled True unrendered_tooltip))) = []
   \<and> open just_shown_tooltip
   \<and> hasUpdated just_shown_tooltip
   \<and> open (settle (update (set_disabled True just_shown_tooltip))) = False
   \<and> emitted (settle (update (set_disabled True just_shown_tooltip))) = []"
  by (simp add: unrendered_tooltip_def just_shown_tooltip_def closed_tooltip_def
        SlTooltip_show_def SlTooltip_hide_def set_open_def set_disabled_def update_def
        handleDisabledChange_def handleOpenChange_def settle.simps step_def Let_def)

text \<open>
  Claim C8, amended. On a tooltip with \<open>open\<close> true and \<open>disabled\<close> false, with no change
  of \<open>disabled\<close> pending, setting \<open>disabled\<close> to true makes \<open>handleDisabledChange\<close> call
  \<open>hide()\<close>, and once the event loop has come to rest \<open>open\<close> is false. When the tooltip
  has completed its first update and \<open>open\<close> was not set from false in the same turn,
  \<open>sl-after-hide\<close> has then been emitted after the assignment, whatever calls of the open
  handler were suspended and whatever animations were running. Before the first update,
  or when \<open>open\<close> was set from false in the same turn, and with nothing in flight, no
  notification is emitted.
\<close>

theorem disabling_while_open_hides:
  assumes "open t" and "\<not> SlTooltip.disabled t" and "changed_disabled t = None"
  shows "handleDisabledChange (set_disabled True t) = fst (SlTooltip_hide (set_disabled True t))
       \<and> \<not> open (settle (update (set_disabled True t)))
       \<and> (hasUpdated t \<and> changed_open t \<noteq> Some False \<longrightarrow>
            ''sl-after-hide'' \<in> set (drop (length (emitted t))
                                      (emitted (settle (update (set_disabled True t))))))
       \<and> ((\<not> hasUpdated t \<or> changed_open t = Some False) \<and>
            suspended t = [] \<and> animations t = [] \<longrightarrow>
            emitted (settle (update (set_disabled True t))) = emitted t)"
proof (intro conjI impI)
  define u where "u = update (set_disabled True t)"
  have "\<not> open u"
    using assms
    by (cases "changed_open t")
       (simp_all add: u_def update_def set_disabled_def handleDisabledChange_def
          SlTooltip_hide_def set_open_def handleOpenChange_def Let_def suspend_def
          stopAnimations_def emit_tooltip_def)
  then show "\<not> open (settle (update (set_disabled True t)))"
    by (simp add: settle_open u_def)
  show "handleDisabledChange (set_disabled True t) = fst (SlTooltip_hide (set_disabled True t))"
    using assms by (simp add: handleDisabledChange_def set_disabled_def)
next
  assume a: "hasUpdated t \<and> changed_open t \<noteq> Some False"
  define u where "u = update (set_disabled True t)"
  have u: "hide_pending u" "emitted u = emitted t @ [''sl-hide'']"
    using assms a
    by (cases "changed_open t";
        simp add: u_def update_def set_disabled_def handleDisabledChange_def
          SlTooltip_hide_def set_open_def handleOpenChange_def Let_def suspend_def
          stopAnimations_def emit_tooltip_def hide_pending_def)+
  obtain es where es: "emitted (settle u) = emitted u @ es" using settle_emitted by blast
  have "''sl-after-hide'' \<in> set (drop (length (emitted u)) (emitted (settle u)))"
    using u(1) by (rule settle_hide_pending)
  then show "''sl-after-hide'' \<in> set (drop (length (emitted t))
                                      (emitted (settle (update (set_disabled True t)))))"
    using es u(2) by (simp add: u_def)
next
  assume a: "(\<not> hasUpdated t \<or> changed_open t = Some False) \<and>
            suspended t = [] \<and> animations t = []"
  define u where "u = update (set_disabled True t)"
  have u: "suspended u = []" "animations u = []" "emitted u = emitted t"
    using assms a
    by (cases "changed_open t";
        auto simp: u_def update_def set_disabled_def handleDisabledChange_def
          SlTooltip_hide_def set_open_def handleOpenChange_def Let_def)+
  then have "step u = None" by (simp add: step_def)
  then have "settle u = u" by (simp add: settle.simps)
  then show "emitted (settle (update (set_disabled True t))) = emitted t"
    using u(3) by (simp add: u_def)
qed

theorem disabling_while_open_hides_witness:
  "open (settle (update (set_disabled True shown_tooltip))) = False
   \<and> ''sl-after-hide'' \<in> set (drop (length (emitted shown_tooltip))
                               (emitted (settle (update (set_disabled True shown_tooltip)))))
   \<and> open (settle (update (set_disabled True reopened_tooltip))) = False
   \<and> ''sl-after-hide'' \<in> set (drop (length (emitted reopened_tooltip))
                               (emitted (settle (update (set_disabled True reopened_tooltip)))))
   \<and> open (settle (update (set_disabled True unrendered_tooltip))) = False
   \<and> emitted (settle (update (set_disabled True unrendered_tooltip)))
       = emitted unrendered_tooltip
   \<and> emitted (settle (update (set_disabled True just_shown_tooltip)))
       = emitted just_shown_tooltip"
proof -
  have h: "open shown_tooltip" "\<not> SlTooltip.disabled shown_tooltip"
    "changed_disabled shown_tooltip = None" "hasUpdated shown_tooltip"
    "changed_open shown_tooltip \<noteq> Some False"
    by (simp_all add: shown_tooltip_def)
  have r: "open reopened_tooltip" "\<not> SlTooltip.disabled reopened_tooltip"
    "changed_disabled reopened_tooltip = None" "hasUpdated reopened_tooltip"
    "changed_open reopened_tooltip \<noteq> Some False"
    by (simp_all add: reopened_tooltip_def)
  have n: "open unrendered_tooltip" "\<not> SlTooltip.disabled unrendered_tooltip"
    "changed_disabled unrendered_tooltip = None" "\<not> hasUpdated unrendered_tooltip"
    "suspended unrendered_tooltip = []" "animations unrendered_tooltip = []"
    by (simp_all add: unrendered_tooltip_def)
  have j: "open just_shown_tooltip" "\<not> SlTooltip.disabled just_shown_tooltip"
    "changed_disabled just_shown_tooltip = None" "changed_open just_shown_tooltip = Some False"
    "suspended just_shown_tooltip = []" "animations just_shown_tooltip = []"
    by (simp_all add: just_shown_tooltip_def closed_tooltip_def SlTooltip_show_def set_open_def)
  from disabling_while_open_hides[OF h(1,2,3)] h(4,5)
  have one: "open (settle (update (set_disabled True shown_tooltip))) = False"
    "''sl-after-hide'' \<in> set (drop (length (emitted shown_tooltip))
                               (emitted (settle (update (set_disabled True shown_tooltip)))))"
    by blast+
  from disabling_while_open_hides[OF r(1,2,3)] r(4,5)
  have two: "open (settle (update (set_disabled True reopened_tooltip))) = False"
    "''sl-after-hide'' \<in> set (drop (length (emitted reopened_tooltip))
                               (emitted (settle (update (set_disabled True reopened_tooltip)))))"
    by blast+
  from disabling_while_open_hides[OF n(1,2,3)] n(4,5,6)
  have three: "open (settle (update (set_disabled True unrendered_tooltip))) = False"
    "emitted (settle (update (set_disabled True unrendered_tooltip)))
       = emitted unrendered_tooltip"
    by blast+
  from disabling_while_open_hides[OF j(1,2,3)] j(4,5,6)
  have four: "emitted (settle (update (set_disabled True just_shown_tooltip)))
       = emitted just_shown_tooltip"
    by blast
  from one two three four show ?thesis by blast
qed

end
